theory Spec2Isabelle
  imports Main
begin

section \<open>Python string and path primitives used by the plugin\<close>

text \<open>
  The plugin \<^verbatim>\<open>DiscoverFmf\<close> (file \<^verbatim>\<open>tmt/steps/discover/fmf.py\<close>) works on
  Python \<^verbatim>\<open>str\<close> values with a handful of library calls: \<^verbatim>\<open>str.split\<close>,
  \<^verbatim>\<open>str.strip\<close>, \<^verbatim>\<open>str.lstrip\<close>, \<^verbatim>\<open>re.escape\<close> and the POSIX flavour of
  \<^verbatim>\<open>os.path\<close> (\<^verbatim>\<open>join\<close>, \<^verbatim>\<open>dirname\<close>, \<^verbatim>\<open>normpath\<close>, \<^verbatim>\<open>abspath\<close>,
  \<^verbatim>\<open>relpath\<close>).  They are embedded here as functions on \<^typ>\<open>string\<close>, following
  CPython's \<^verbatim>\<open>posixpath.py\<close> and \<^verbatim>\<open>re.py\<close> branch by branch.
\<close>

definition nl :: char where
  "nl = CHR 0x0A"

definition sep :: char where
  "sep = CHR ''/''"

definition backslash :: char where
  "backslash = CHR 0x5C"

text \<open>\<^verbatim>\<open>s.lstrip(c)\<close>, \<^verbatim>\<open>s.rstrip(c)\<close> and \<^verbatim>\<open>s.strip(c)\<close> for a one-character \<^verbatim>\<open>c\<close>.\<close>

definition lstrip :: "char \<Rightarrow> string \<Rightarrow> string" where
  "lstrip c s = dropWhile (\<lambda>x. x = c) s"

definition rstrip :: "char \<Rightarrow> string \<Rightarrow> string" where
  "rstrip c s = rev (dropWhile (\<lambda>x. x = c) (rev s))"

definition strip :: "char \<Rightarrow> string \<Rightarrow> string" where
  "strip c s = rstrip c (lstrip c s)"

text \<open>
  \<^verbatim>\<open>s.split(c)\<close> for a one-character separator: the result is never empty,
  \<^verbatim>\<open>''.split(c) == ['']\<close>, and a trailing separator gives a trailing empty field.
\<close>

fun split :: "char \<Rightarrow> string \<Rightarrow> string list" where
  "split c [] = [[]]"
| "split c (x # xs) =
     (if x = c then [] # split c xs
      else (case split c xs of
              [] \<Rightarrow> [[x]]
            | w # ws \<Rightarrow> (x # w) # ws))"

text \<open>\<^verbatim>\<open>c.join(xs)\<close> for a one-character \<^verbatim>\<open>c\<close>.\<close>

fun join_with :: "char \<Rightarrow> string list \<Rightarrow> string" where
  "join_with c [] = []"
| "join_with c [x] = x"
| "join_with c (x # y # ys) = x @ c # join_with c (y # ys)"

text \<open>
  \<^verbatim>\<open>os.path.join(a, b)\<close>: an absolute \<^verbatim>\<open>b\<close> replaces \<^verbatim>\<open>a\<close>; otherwise \<^verbatim>\<open>b\<close> is
  appended, with a separator unless \<^verbatim>\<open>a\<close> is empty or already ends in one.
  \<^verbatim>\<open>os.path.join(a, *p)\<close> folds this over \<^verbatim>\<open>p\<close>.
\<close>

definition path_join :: "string \<Rightarrow> string \<Rightarrow> string" where
  "path_join a b =
     (if b \<noteq> [] \<and> hd b = sep then b
      else if a = [] \<or> last a = sep then a @ b
      else a @ sep # b)"

definition path_join_all :: "string \<Rightarrow> string list \<Rightarrow> string" where
  "path_join_all a p = foldl path_join a p"

text \<open>
  \<^verbatim>\<open>os.path.dirname(p)\<close>: \<^verbatim>\<open>head = p[:p.rfind('/') + 1]\<close> is \<^verbatim>\<open>p\<close> without the
  characters after its last separator (empty when there is no separator); trailing
  separators of \<^verbatim>\<open>head\<close> are stripped unless \<^verbatim>\<open>head\<close> consists of separators only.
\<close>

definition dirname :: "string \<Rightarrow> string" where
  "dirname p =
     (let head = rev (dropWhile (\<lambda>x. x \<noteq> sep) (rev p))
      in if head \<noteq> [] \<and> head \<noteq> replicate (length head) sep
         then rstrip sep head else head)"

text \<open>
  \<^verbatim>\<open>re.escape\<close> (CPython 3.7 and later): every character of
  \<^verbatim>\<open>()[]{}?*+-|^$\.&~#\<close>, the blank and the control characters
  \<^verbatim>\<open>\t \n \r \v \f\<close> gets a backslash in front; every other character is kept.
\<close>

definition special_chars :: "char list" where
  "special_chars =
     [CHR ''('', CHR '')'', CHR ''['', CHR '']'', CHR ''{'', CHR ''}'', CHR ''?'',
      CHR ''*'', CHR ''+'', CHR ''-'', CHR ''|'', CHR ''^'', CHR ''$'', CHR 0x5C,
      CHR ''.'', CHR ''&'', CHR ''~'', CHR ''#'', CHR '' '', CHR 0x09, CHR 0x0A,
      CHR 0x0D, CHR 0x0B, CHR 0x0C]"

fun re_escape :: "string \<Rightarrow> string" where
  "re_escape [] = []"
| "re_escape (c # cs) =
     (if c \<in> set special_chars then backslash # c # re_escape cs
      else c # re_escape cs)"

text \<open>
  The inverse reading of an escaped literal: a backslash stands for the character
  after it.  It is used only to state that escaping loses nothing.
\<close>

fun re_unescape :: "string \<Rightarrow> string" where
  "re_unescape [] = []"
| "re_unescape [c] = [c]"
| "re_unescape (c # d # cs) =
     (if c = backslash then d # re_unescape cs else c # re_unescape (d # cs))"

section \<open>The modified set\<close>

text \<open>
  Lines 198--200 of \<^verbatim>\<open>go\<close>:
  \<^verbatim>\<open>
  modified = set(f"^/{re.escape(name)}$"
                 for name in map(os.path.dirname, output.split('\n'))
                 if name)
  \<close>
  \<open>anchored\<close> is the f-string, \<open>modified_names\<close> the generator with its filter, and
  \<open>modified\<close> the resulting set.  \<open>modified_list\<close> enumerates the set for
  \<^verbatim>\<open>names.extend(modified)\<close>; Python leaves the iteration order of a set open, the
  embedding takes first occurrences in generator order, and no statement below
  depends on that order.
\<close>

definition anchored :: "string \<Rightarrow> string" where
  "anchored name = ''^/'' @ re_escape name @ ''$''"

definition modified_names :: "string \<Rightarrow> string list" where
  "modified_names output = filter (\<lambda>name. name \<noteq> []) (map dirname (split nl output))"

definition modified :: "string \<Rightarrow> string set" where
  "modified output = set (map anchored (modified_names output))"

definition modified_list :: "string \<Rightarrow> string list" where
  "modified_list output = remdups (map anchored (modified_names output))"

text \<open>The output of the log command for a list of changed files: one path per line.\<close>

definition log_output :: "string list \<Rightarrow> string" where
  "log_output files = concat (map (\<lambda>f. f @ [nl]) files)"

section \<open>Path normalisation and relative paths\<close>

text \<open>
  \<^verbatim>\<open>posixpath.normpath\<close>: one or two leading slashes are kept as they are, three
  or more count as one; empty and \<^verbatim>\<open>.\<close> components are dropped; \<^verbatim>\<open>..\<close> removes
  the component before it where there is one to remove.
\<close>

definition initial_slashes :: "string \<Rightarrow> nat" where
  "initial_slashes p =
     (if take 1 p \<noteq> [sep] then 0
      else if take 2 p = [sep, sep] \<and> take 3 p \<noteq> [sep, sep, sep] then 2
      else 1)"

fun norm_comps :: "nat \<Rightarrow> string list \<Rightarrow> string list \<Rightarrow> string list" where
  "norm_comps init new_comps [] = new_comps"
| "norm_comps init new_comps (part # parts) =
     (if part = [] \<or> part = ''.'' then norm_comps init new_comps parts
      else if part \<noteq> ''..'' \<or> (init = 0 \<and> new_comps = [])
                \<or> (new_comps \<noteq> [] \<and> last new_comps = ''..'')
        then norm_comps init (new_comps @ [part]) parts
      else if new_comps \<noteq> [] then norm_comps init (butlast new_comps) parts
      else norm_comps init new_comps parts)"

definition normpath :: "string \<Rightarrow> string" where
  "normpath p =
     (if p = [] then ''.''
      else
        let init = initial_slashes p;
            comps = norm_comps init [] (split sep p);
            joined = join_with sep comps;
            q = (if init \<noteq> 0 then replicate init sep @ joined else joined)
        in if q = [] then ''.'' else q)"

definition isabs :: "string \<Rightarrow> bool" where
  "isabs p = (take 1 p = [sep])"

text \<open>\<^verbatim>\<open>os.path.abspath\<close>, with the process's working directory as a parameter.\<close>

definition abspath :: "string \<Rightarrow> string \<Rightarrow> string" where
  "abspath getcwd p = normpath (if isabs p then p else path_join getcwd p)"

text \<open>
  \<^verbatim>\<open>os.path.commonprefix\<close> of two lists: the library takes the smaller and the
  larger of the two in lexicographic order and returns the longest prefix they
  share, which does not depend on which of the two is the smaller.
\<close>

fun commonprefix :: "'a list \<Rightarrow> 'a list \<Rightarrow> 'a list" where
  "commonprefix (x # xs) (y # ys) = (if x = y then x # commonprefix xs ys else [])"
| "commonprefix xs ys = []"

text \<open>Errors: the two exception classes of \<^verbatim>\<open>tmt.utils\<close> that \<^verbatim>\<open>go\<close> names, and
  the built-in ones its library calls can raise.\<close>

datatype error =
    DiscoverError string
  | RunError
  | ValueError
  | AttributeError
  | OtherError string

text \<open>
  \<^verbatim>\<open>os.path.relpath(path, start)\<close>: raises \<^verbatim>\<open>ValueError\<close> on an empty \<^verbatim>\<open>path\<close>;
  otherwise both arguments are made absolute, split into their components, and the
  result climbs from \<^verbatim>\<open>start\<close> to the common ancestor and descends to \<^verbatim>\<open>path\<close>.
\<close>

definition relpath :: "string \<Rightarrow> string \<Rightarrow> string \<Rightarrow> error + string" where
  "relpath getcwd p start =
     (if p = [] then Inl ValueError
      else
        let start_list = filter (\<lambda>x. x \<noteq> []) (split sep (abspath getcwd start));
            path_list = filter (\<lambda>x. x \<noteq> []) (split sep (abspath getcwd p));
            i = length (commonprefix start_list path_list);
            rel_list = replicate (length start_list - i) ''..'' @ drop i path_list
        in if rel_list = [] then Inr ''.''
           else Inr (path_join_all (hd rel_list) (tl rel_list)))"

section \<open>Configuration\<close>

text \<open>
  \<^verbatim>\<open>self.data\<close> is a dictionary from option names to YAML values.  The values
  that matter are \<^verbatim>\<open>None\<close>, booleans, strings, lists and (from the command line,
  for options declared \<^verbatim>\<open>multiple=True\<close>) tuples.
\<close>

datatype pyval =
    PNone
  | PBool bool
  | PStr string
  | PList "pyval list"
  | PTuple "pyval list"

type_synonym pydict = "string \<rightharpoonup> pyval"

text \<open>Truth value of a Python object, as tested by \<^verbatim>\<open>if value:\<close>.\<close>

fun py_truthy :: "pyval \<Rightarrow> bool" where
  "py_truthy PNone = False"
| "py_truthy (PBool b) = b"
| "py_truthy (PStr s) = (s \<noteq> [])"
| "py_truthy (PList xs) = (xs \<noteq> [])"
| "py_truthy (PTuple xs) = (xs \<noteq> [])"

text \<open>\<^verbatim>\<open>isinstance(v, list)\<close>.\<close>

fun is_list :: "pyval \<Rightarrow> bool" where
  "is_list (PList xs) = True"
| "is_list v = False"

fun is_sequence :: "pyval \<Rightarrow> bool" where
  "is_sequence (PList xs) = True"
| "is_sequence (PTuple xs) = True"
| "is_sequence v = False"

text \<open>
  The command line, as declared by \<^verbatim>\<open>options\<close> (lines 56--84): six options
  with one string value each, absent when not given; the flag \<^verbatim>\<open>--only-modified\<close>;
  and the two repeatable options \<^verbatim>\<open>--test\<close> and \<^verbatim>\<open>--filter\<close>, which the option
  parser delivers as a tuple of strings, empty when the option is not given.
\<close>

record options =
  opt_url :: "string option"
  opt_ref :: "string option"
  opt_reference_url :: "string option"
  opt_reference_ref :: "string option"
  opt_only_modified :: bool
  opt_path :: "string option"
  opt_test :: "string list"
  opt_filter :: "string list"

definition of_str :: "string option \<Rightarrow> pyval" where
  "of_str v = (case v of None \<Rightarrow> PNone | Some s \<Rightarrow> PStr s)"

text \<open>\<^verbatim>\<open>self.opt(option)\<close> for the option names \<^verbatim>\<open>wake\<close> asks for.\<close>

definition opt :: "options \<Rightarrow> string \<Rightarrow> pyval" where
  "opt cmdline option =
     (if option = ''url'' then of_str (opt_url cmdline)
      else if option = ''ref'' then of_str (opt_ref cmdline)
      else if option = ''reference_url'' then of_str (opt_reference_url cmdline)
      else if option = ''reference_ref'' then of_str (opt_reference_ref cmdline)
      else if option = ''path'' then of_str (opt_path cmdline)
      else if option = ''test'' then PTuple (map PStr (opt_test cmdline))
      else if option = ''filter'' then PTuple (map PStr (opt_filter cmdline))
      else if option = ''only_modified'' then PBool (opt_only_modified cmdline)
      else PNone)"

text \<open>
  \<^verbatim>\<open>wake\<close> (lines 100--119), in its three steps.  \<^verbatim>\<open>data.pop(old)\<close> removes the
  key and returns its value.
\<close>

definition rename_key :: "string \<Rightarrow> string \<Rightarrow> pydict \<Rightarrow> pydict" where
  "rename_key old new data =
     (case data old of
        None \<Rightarrow> data
      | Some v \<Rightarrow> (data(old := None))(new \<mapsto> v))"

definition wake_compat :: "pydict \<Rightarrow> pydict" where
  "wake_compat data = rename_key ''revision'' ''ref'' (rename_key ''repository'' ''url'' data)"

definition listify :: "string \<Rightarrow> pydict \<Rightarrow> pydict" where
  "listify key data =
     (case data key of
        None \<Rightarrow> data
      | Some v \<Rightarrow> if \<not> is_list v then data(key \<mapsto> PList [v]) else data)"

definition wake_lists :: "pydict \<Rightarrow> pydict" where
  "wake_lists data = fold listify [''filter'', ''test''] data"

definition apply_option :: "options \<Rightarrow> string \<Rightarrow> pydict \<Rightarrow> pydict" where
  "apply_option cmdline option data =
     (let v = opt cmdline option in if py_truthy v then data(option \<mapsto> v) else data)"

definition wake_options :: "options \<Rightarrow> pydict \<Rightarrow> pydict" where
  "wake_options cmdline data =
     fold (apply_option cmdline)
       [''url'', ''ref'', ''reference_url'', ''reference_ref'', ''path'',
        ''test'', ''filter'', ''only_modified'']
       data"

definition wake :: "options \<Rightarrow> pydict \<Rightarrow> pydict" where
  "wake cmdline data = wake_options cmdline (wake_lists (wake_compat data))"

section \<open>The outside world\<close>

text \<open>
  \<^verbatim>\<open>go\<close> talks to the outside through five calls: \<^verbatim>\<open>self.run\<close> (a command of the
  version-control client), \<^verbatim>\<open>os.path.isdir\<close>, \<^verbatim>\<open>shutil.copytree\<close>, the query
  \<^verbatim>\<open>tmt.Tree(...).tests(...)\<close> and \<^verbatim>\<open>tmt.beakerlib.dependencies\<close>.  None of them is
  defined in \<^verbatim>\<open>fmf.py\<close>, so each is a parameter: a function from the calls made
  so far (the \<open>trace\<close>) and the arguments of the call to its outcome.  Every call
  but \<^verbatim>\<open>isdir\<close> is appended to the trace, so the trace tells what was done and in
  which order, and the answers may depend on everything done before.

  A command is either a shell line (\<^verbatim>\<open>shell=True\<close>, the default of \<^verbatim>\<open>self.run\<close>)
  or an argument vector (\<^verbatim>\<open>shell=False\<close>).  \<^verbatim>\<open>self.run\<close> returns a pair whose first
  member the code reads as the standard output; the embedding keeps that member,
  which is \<^verbatim>\<open>None\<close> when the wrapper ran nothing.
\<close>

datatype command = Shell string | Argv "string list"

record testcase =
  test_name :: string
  test_path :: string
  require :: "string list"
  recommend :: "string list"

datatype event =
    Run command "string option" bool
  | Copytree string string
  | TreeTests string "string list" "string list"
  | Dependencies "string list" "string list"

record world =
  workdir :: string
  tree_root :: string
  getcwd :: string
  dry :: bool
  isdir :: "event list \<Rightarrow> string \<Rightarrow> bool"
  run :: "event list \<Rightarrow> command \<Rightarrow> string option \<Rightarrow> bool \<Rightarrow> error + string option"
  copytree :: "event list \<Rightarrow> string \<Rightarrow> string \<Rightarrow> error option"
  tree_tests :: "event list \<Rightarrow> string \<Rightarrow> string list \<Rightarrow> string list \<Rightarrow> error + testcase list"
  dependencies ::
    "event list \<Rightarrow> string list \<Rightarrow> string list \<Rightarrow> error + string list \<times> string list"

text \<open>
  An action takes the trace so far and gives either an exception or a value,
  with the trace extended by the calls it made.
\<close>

type_synonym 'a action = "event list \<Rightarrow> (error + 'a) \<times> event list"

definition ret :: "'a \<Rightarrow> 'a action" where
  "ret x = (\<lambda>tr. (Inr x, tr))"

definition throw :: "error \<Rightarrow> 'a action" where
  "throw e = (\<lambda>tr. (Inl e, tr))"

definition and_then :: "'a action \<Rightarrow> ('a \<Rightarrow> 'b action) \<Rightarrow> 'b action" where
  "and_then m f =
     (\<lambda>tr. case m tr of
             (Inl e, tr') \<Rightarrow> (Inl e, tr')
           | (Inr x, tr') \<Rightarrow> f x tr')"

definition do_run :: "world \<Rightarrow> command \<Rightarrow> string option \<Rightarrow> bool \<Rightarrow> (string option) action" where
  "do_run w cmd cwd dry_arg = (\<lambda>tr. (run w tr cmd cwd dry_arg, tr @ [Run cmd cwd dry_arg]))"

definition do_isdir :: "world \<Rightarrow> string \<Rightarrow> bool action" where
  "do_isdir w p = (\<lambda>tr. (Inr (isdir w tr p), tr))"

definition do_copytree :: "world \<Rightarrow> string \<Rightarrow> string \<Rightarrow> unit action" where
  "do_copytree w src dst =
     (\<lambda>tr. (case copytree w tr src dst of None \<Rightarrow> Inr () | Some e \<Rightarrow> Inl e,
            tr @ [Copytree src dst]))"

definition do_tree_tests ::
  "world \<Rightarrow> string \<Rightarrow> string list \<Rightarrow> string list \<Rightarrow> (testcase list) action" where
  "do_tree_tests w tree_path filters names =
     (\<lambda>tr. (tree_tests w tr tree_path filters names, tr @ [TreeTests tree_path filters names]))"

definition do_dependencies ::
  "world \<Rightarrow> string list \<Rightarrow> string list \<Rightarrow> (string list \<times> string list) action" where
  "do_dependencies w req rcm =
     (\<lambda>tr. (dependencies w tr req rcm, tr @ [Dependencies req rcm]))"

text \<open>Reading the standard output of a command: a method call on \<^verbatim>\<open>None\<close> raises.\<close>

definition stdout_of :: "string option \<Rightarrow> string action" where
  "stdout_of out = (case out of None \<Rightarrow> throw AttributeError | Some s \<Rightarrow> ret s)"

section \<open>The plugin's configuration as \<^verbatim>\<open>go\<close> reads it\<close>

text \<open>
  \<^verbatim>\<open>go\<close> reads its configuration through \<^verbatim>\<open>self.get\<close>, the inherited lookup: the
  value stored in \<^verbatim>\<open>self.data\<close> if the key is there, otherwise what \<^verbatim>\<open>default\<close>
  (lines 86--94) returns.  For \<^verbatim>\<open>go\<close> the dictionary is read as a record of typed
  fields: the five string options are absent (\<open>None\<close>) or a string, \<^verbatim>\<open>test\<close> and
  \<^verbatim>\<open>filter\<close> are absent or a sequence of strings (a list from the configuration
  file, a tuple from the command line), \<^verbatim>\<open>only_modified\<close> is its truth value.
\<close>

datatype names = PyList "string list" | PyTuple "string list"

fun items :: "names \<Rightarrow> string list" where
  "items (PyList xs) = xs"
| "items (PyTuple xs) = xs"

record config =
  url :: "string option"
  ref :: "string option"
  path :: "string option"
  test :: "names option"
  filter_by :: "names option"
  only_modified :: bool
  reference_url :: "string option"
  reference_ref :: "string option"

text \<open>Truth value of an optional string: \<^verbatim>\<open>None\<close> and \<^verbatim>\<open>''\<close> are false.\<close>

definition truthy :: "string option \<Rightarrow> bool" where
  "truthy v = (case v of None \<Rightarrow> False | Some s \<Rightarrow> s \<noteq> [])"

definition default :: "config \<Rightarrow> string \<Rightarrow> string option \<Rightarrow> string option" where
  "default cfg option dflt =
     (if option = ''ref'' \<and> truthy (url cfg) then Some ''master''
      else if option = ''reference_ref'' then Some ''master''
      else dflt)"

definition get :: "config \<Rightarrow> (config \<Rightarrow> string option) \<Rightarrow> string \<Rightarrow> string option" where
  "get cfg field option =
     (case field cfg of Some v \<Rightarrow> Some v | None \<Rightarrow> default cfg option None)"

text \<open>\<^verbatim>\<open>self.get('test', [])\<close> and \<^verbatim>\<open>self.get('filter', [])\<close>: \<^verbatim>\<open>default\<close> has no
  value of its own for these keys and hands back the empty list it was given.\<close>

definition get_names :: "config \<Rightarrow> (config \<Rightarrow> names option) \<Rightarrow> names" where
  "get_names cfg field = (case field cfg of Some v \<Rightarrow> v | None \<Rightarrow> PyList [])"

section \<open>Discovery: \<^verbatim>\<open>go\<close>\<close>

definition quoted :: "string \<Rightarrow> string" where
  "quoted s = CHR 0x27 # s @ [CHR 0x27]"

definition testdir :: "world \<Rightarrow> string" where
  "testdir w = path_join (workdir w) ''tests''"

definition clone_cmd :: "world \<Rightarrow> string \<Rightarrow> command" where
  "clone_cmd w u = Argv [''git'', ''clone'', u, testdir w]"

definition toplevel_cmd :: command where
  "toplevel_cmd = Shell ''git rev-parse --show-toplevel''"

definition checkout_cmd :: "string \<Rightarrow> command" where
  "checkout_cmd r = Argv [''git'', ''checkout'', ''-f'', r]"

definition remote_add_cmd :: "string \<Rightarrow> command" where
  "remote_add_cmd u = Argv [''git'', ''remote'', ''add'', ''reference'', u]"

definition fetch_cmd :: command where
  "fetch_cmd = Argv [''git'', ''fetch'', ''reference'']"

definition log_cmd :: "string \<Rightarrow> command" where
  "log_cmd r = Argv [''git'', ''log'', ''--format='', ''--stat'', ''--name-only'', r @ ''..HEAD'']"

text \<open>
  Lines 141--148: the root of the repository that holds \<open>fmf_root\<close>.  Only
  \<^verbatim>\<open>RunError\<close> is caught; it makes \<open>fmf_root\<close> itself the root.
\<close>

definition find_git_root :: "world \<Rightarrow> string \<Rightarrow> string action" where
  "find_git_root w fmf_root =
     (\<lambda>tr. case do_run w toplevel_cmd (Some fmf_root) True tr of
             (Inl RunError, tr') \<Rightarrow> (Inr fmf_root, tr')
           | (Inl e, tr') \<Rightarrow> (Inl e, tr')
           | (Inr out, tr') \<Rightarrow> and_then (stdout_of out) (\<lambda>s. ret (strip nl s)) tr')"

text \<open>
  Lines 126--154: the test directory is filled by a clone or by a copy.  The value
  is the variable \<^verbatim>\<open>path\<close> as it stands at line 155.
\<close>

definition acquire :: "world \<Rightarrow> config \<Rightarrow> (string option) action" where
  "acquire w cfg =
     (let cfg_url = get cfg url ''url''; cfg_path = get cfg path ''path'' in
      if truthy cfg_url then
        and_then (do_run w (clone_cmd w (the cfg_url)) None False) (\<lambda>_. ret cfg_path)
      else
        and_then (if truthy cfg_path then do_isdir w (the cfg_path) else ret True) (\<lambda>is_dir.
          if truthy cfg_path \<and> \<not> is_dir then
            throw (DiscoverError
                     (''Provided path '' @ quoted (the cfg_path) @ '' is not a directory.''))
          else
            let fmf_root = (if truthy cfg_path then the cfg_path else tree_root w) in
            and_then (find_git_root w fmf_root) (\<lambda>git_root.
            and_then (case relpath (getcwd w) fmf_root git_root of
                        Inl e \<Rightarrow> throw e | Inr p \<Rightarrow> ret p) (\<lambda>p.
            and_then (if \<not> dry w then do_copytree w git_root (testdir w) else ret ()) (\<lambda>_.
            ret (Some p))))))"

text \<open>Lines 156--161.\<close>

definition checkout :: "world \<Rightarrow> config \<Rightarrow> unit action" where
  "checkout w cfg =
     (let cfg_ref = get cfg ref ''ref'' in
      if truthy cfg_ref then
        and_then (do_run w (checkout_cmd (the cfg_ref)) (Some (testdir w)) False) (\<lambda>_. ret ())
      else ret ())"

text \<open>Lines 163--167.\<close>

definition adjust_path :: "string option \<Rightarrow> string" where
  "adjust_path p = (if p = None \<or> p = Some ''.'' then [] else the p)"

text \<open>Lines 170 and 174.\<close>

definition tree_path_of :: "world \<Rightarrow> string \<Rightarrow> string" where
  "tree_path_of w p = path_join (testdir w) (lstrip sep p)"

definition prefix_path_of :: "string \<Rightarrow> string" where
  "prefix_path_of p = path_join ''/tests'' (lstrip sep p)"

text \<open>Lines 171--173.\<close>

definition check_tree :: "world \<Rightarrow> string \<Rightarrow> unit action" where
  "check_tree w p =
     and_then (do_isdir w (tree_path_of w p)) (\<lambda>is_dir.
       if \<not> is_dir \<and> \<not> dry w then
         throw (DiscoverError (''Metadata tree path '' @ quoted p @ '' not found.''))
       else ret ())"

text \<open>
  Lines 126--174 together: the value is the adjusted \<^verbatim>\<open>path\<close>, from which
  \<^verbatim>\<open>tree_path\<close> and \<^verbatim>\<open>prefix_path\<close> are computed.
\<close>

definition prepare :: "world \<Rightarrow> config \<Rightarrow> string action" where
  "prepare w cfg =
     and_then (acquire w cfg) (\<lambda>p0.
     and_then (checkout w cfg) (\<lambda>_.
     let p = adjust_path p0 in
     and_then (check_tree w p) (\<lambda>_. ret p)))"

text \<open>Lines 185--191.\<close>

definition fetch_reference :: "world \<Rightarrow> config \<Rightarrow> unit action" where
  "fetch_reference w cfg =
     (let ref_url = get cfg reference_url ''reference_url'' in
      if truthy ref_url then
        and_then (do_run w (remote_add_cmd (the ref_url)) (Some (testdir w)) False) (\<lambda>_.
        and_then (do_run w fetch_cmd (Some (testdir w)) False) (\<lambda>_. ret ()))
      else ret ())"

text \<open>
  Lines 184 and 192--202: with \<^verbatim>\<open>only_modified\<close> the patterns of the modified
  set are appended to \<^verbatim>\<open>names\<close>.  \<^verbatim>\<open>extend\<close> is a method of lists; a tuple has none.
  \<^verbatim>\<open>reference_ref\<close> always has a value, by \<^verbatim>\<open>default\<close>.
\<close>

definition extend :: "names \<Rightarrow> string list \<Rightarrow> names action" where
  "extend ns extra =
     (case ns of
        PyList xs \<Rightarrow> ret (PyList (xs @ extra))
      | PyTuple xs \<Rightarrow> throw AttributeError)"

definition add_modified :: "world \<Rightarrow> config \<Rightarrow> names \<Rightarrow> names action" where
  "add_modified w cfg ns =
     (if only_modified cfg then
        let reference_ref = the (get cfg reference_ref ''reference_ref'') in
        and_then (do_run w (log_cmd reference_ref) (Some (testdir w)) False) (\<lambda>out.
        and_then (stdout_of out) (\<lambda>output.
        extend ns (modified_list output)))
      else ret ns)"

text \<open>
  Lines 212--219, the loop over \<^verbatim>\<open>self._tests\<close>.  Each test object is changed in
  place, so the list is there whether or not the loop is left by an exception: the
  value is the exception, if any, and the list as the loop leaves it.
\<close>

definition prefix_test :: "string \<Rightarrow> testcase \<Rightarrow> testcase" where
  "prefix_test prefix_path t =
     t\<lparr>test_path := path_join prefix_path (lstrip sep (test_path t))\<rparr>"

fun prefix_tests ::
  "world \<Rightarrow> string \<Rightarrow> testcase list \<Rightarrow> event list
     \<Rightarrow> (error option \<times> testcase list) \<times> event list" where
  "prefix_tests w prefix_path [] tr = ((None, []), tr)"
| "prefix_tests w prefix_path (t # ts) tr =
     (let t1 = prefix_test prefix_path t in
      if require t1 \<noteq> [] \<or> recommend t1 \<noteq> [] then
        (case do_dependencies w (require t1) (recommend t1) tr of
           (Inl e, tr1) \<Rightarrow> ((Some e, t1 # ts), tr1)
         | (Inr (req, rcm), tr1) \<Rightarrow>
             (case prefix_tests w prefix_path ts tr1 of
                ((err, ts'), tr2) \<Rightarrow> ((err, t1\<lparr>require := req, recommend := rcm\<rparr> # ts'), tr2)))
      else
        (case prefix_tests w prefix_path ts tr of
           ((err, ts'), tr2) \<Rightarrow> ((err, t1 # ts'), tr2)))"

text \<open>Lines 204--219: nothing is queried in dry mode.\<close>

definition select_tests ::
  "world \<Rightarrow> string \<Rightarrow> names \<Rightarrow> names \<Rightarrow> (testcase list) action" where
  "select_tests w p filters ns =
     (if dry w then ret []
      else
        and_then (do_tree_tests w (tree_path_of w p) (items filters) (items ns)) (\<lambda>tests.
          (\<lambda>tr. case prefix_tests w (prefix_path_of p) tests tr of
                  ((None, ts), tr') \<Rightarrow> (Inr ts, tr')
                | ((Some e, ts), tr') \<Rightarrow> (Inl e, tr'))))"

text \<open>
  Lines 126--202 together: everything \<^verbatim>\<open>go\<close> does before it turns to the
  metadata tree.  The value is the adjusted \<^verbatim>\<open>path\<close> and the final \<^verbatim>\<open>names\<close>.
\<close>

definition before_select :: "world \<Rightarrow> config \<Rightarrow> (string \<times> names) action" where
  "before_select w cfg =
     and_then (prepare w cfg) (\<lambda>p.
     and_then (fetch_reference w cfg) (\<lambda>_.
     and_then (add_modified w cfg (get_names cfg test)) (\<lambda>ns.
     ret (p, ns))))"

text \<open>
  \<^verbatim>\<open>go\<close> (lines 121--219).  The value is \<^verbatim>\<open>self._tests\<close> when \<^verbatim>\<open>go\<close> returns, or
  the exception that leaves it.  Three things the method does are left out: the
  calls of \<^verbatim>\<open>self.info\<close> and \<^verbatim>\<open>self.debug\<close>, which only print; the call of the
  base class's \<^verbatim>\<open>go\<close> at line 123 and the context handed to \<^verbatim>\<open>tmt.Tree\<close> at line
  209, both defined outside this file; and the fact that \<^verbatim>\<open>names.extend\<close> also
  changes the list stored under \<^verbatim>\<open>test\<close> in \<^verbatim>\<open>self.data\<close>, which \<^verbatim>\<open>go\<close> does not
  read again.
\<close>

definition go :: "world \<Rightarrow> config \<Rightarrow> (testcase list) action" where
  "go w cfg =
     and_then (before_select w cfg) (\<lambda>(p, ns).
     select_tests w p (get_names cfg filter_by) ns)"

section \<open>What an action adds to the trace\<close>

text \<open>
  \<open>adds P m\<close>: whatever the trace before, \<open>m\<close> keeps it and appends only calls
  that satisfy \<open>P\<close>.  \<open>is_run\<close> picks the calls of \<^verbatim>\<open>self.run\<close>.
\<close>

fun is_run :: "event \<Rightarrow> bool" where
  "is_run (Run cmd cwd dry_arg) = True"
| "is_run e = False"

definition adds :: "(event \<Rightarrow> bool) \<Rightarrow> 'a action \<Rightarrow> bool" where
  "adds P m = (\<forall>tr. \<exists>evs. snd (m tr) = tr @ evs \<and> list_all P evs)"

section \<open>The query's contract\<close>

text \<open>
  Modelled from the spec: the query \<^verbatim>\<open>tmt.Tree.tests\<close> is defined outside
  \<^verbatim>\<open>fmf.py\<close>.  The specification (section 4.3) gives its selection rule: a test is
  included if no names were given or it matches at least one name pattern, and no
  filters were given or it matches every filter expression.  What it means for a
  test to match a pattern or a filter is left to the two parameters.
\<close>

definition selected ::
  "(string \<Rightarrow> testcase \<Rightarrow> bool) \<Rightarrow> (string \<Rightarrow> testcase \<Rightarrow> bool)
     \<Rightarrow> string list \<Rightarrow> string list \<Rightarrow> testcase \<Rightarrow> bool" where
  "selected name_match filter_match filters ns t =
     ((ns = [] \<or> list_ex (\<lambda>n. name_match n t) ns) \<and> list_all (\<lambda>f. filter_match f t) filters)"

section \<open>Path rewriting as the specification words it\<close>

text \<open>
  The specification's formula for the rewritten path of a test,
  \<^verbatim>\<open>normalize(pathPrefix + "/" + stripLeadingSlash(path))\<close>, with \<^verbatim>\<open>normalize\<close> read
  as \<^verbatim>\<open>os.path.normpath\<close>.  It is compared below with what line 215 computes.
\<close>

definition spec_rewrite :: "string \<Rightarrow> string \<Rightarrow> string" where
  "spec_rewrite prefix_path p = normpath (prefix_path @ ''/'' @ lstrip sep p)"

section \<open>Concrete worlds\<close>

text \<open>
  A small world to run \<^verbatim>\<open>go\<close> in.  The run's working directory is \<^verbatim>\<open>/run\<close>, the
  plan's tree is the repository \<^verbatim>\<open>/repo\<close>, which has a subdirectory \<^verbatim>\<open>sub\<close>.  In
  dry mode the command wrapper runs only what is called with \<^verbatim>\<open>dry=True\<close> and
  returns \<^verbatim>\<open>None\<close> for the rest.  The answer to the top-level query is a
  parameter; the log between \<^verbatim>\<open>master\<close> and the head lists three files; every other
  command prints nothing.  The test directory exists once something was cloned or
  copied into it.  The tree holds two tests, the first with a requirement; the
  dependency hook adds one library to the requirements.
\<close>

definition demo_run ::
  "bool \<Rightarrow> error + string option \<Rightarrow> event list \<Rightarrow> command \<Rightarrow> string option \<Rightarrow> bool
     \<Rightarrow> error + string option" where
  "demo_run dry_mode toplevel tr cmd cwd dry_arg =
     (if dry_mode \<and> \<not> dry_arg then Inr None
      else if cmd = toplevel_cmd then toplevel
      else if cmd = log_cmd ''master''
        then Inr (Some (log_output [''a/b/x'', ''a/b/y'', ''c/z'']))
      else Inr (Some []))"

fun fills :: "event \<Rightarrow> bool" where
  "fills (Copytree src dst) = True"
| "fills (Run (Argv (a # b # rest)) cwd dry_arg) = (b = ''clone'')"
| "fills e = False"

definition demo_isdir :: "event list \<Rightarrow> string \<Rightarrow> bool" where
  "demo_isdir tr p =
     (p \<in> set [''/repo'', ''/repo/sub'']
      \<or> (list_ex fills tr
          \<and> p \<in> set [''/run/tests/'', ''/run/tests/sub'', ''/run/tests/fmf/root'']))"

definition demo_tests :: "testcase list" where
  "demo_tests =
     [\<lparr>test_name = ''/a/b'', test_path = ''/a/b'', require = [''library(x/y)''], recommend = []\<rparr>,
      \<lparr>test_name = ''/c'', test_path = ''/c'', require = [], recommend = []\<rparr>]"

definition demo_world :: "bool \<Rightarrow> error + string option \<Rightarrow> world" where
  "demo_world dry_mode toplevel =
     \<lparr>workdir = ''/run'', tree_root = ''/repo'', getcwd = ''/repo'', dry = dry_mode,
      isdir = demo_isdir,
      run = demo_run dry_mode toplevel,
      copytree = (\<lambda>tr src dst. None),
      tree_tests = (\<lambda>tr tree_path filters ns. Inr demo_tests),
      dependencies = (\<lambda>tr req rcm. Inr (req @ [''beakerlib''], rcm))\<rparr>"

text \<open>The minimal configuration: \<^verbatim>\<open>how: fmf\<close> and nothing else.\<close>

definition minimal :: config where
  "minimal =
     \<lparr>url = None, ref = None, path = None, test = None, filter_by = None,
      only_modified = False, reference_url = None, reference_ref = None\<rparr>"

text \<open>A command line without options, and a configuration file that gives
  \<^verbatim>\<open>test\<close> as a single name and \<^verbatim>\<open>filter\<close> as a list.\<close>

definition no_options :: options where
  "no_options =
     \<lparr>opt_url = None, opt_ref = None, opt_reference_url = None, opt_reference_ref = None,
      opt_only_modified = False, opt_path = None, opt_test = [], opt_filter = []\<rparr>"

definition demo_data :: pydict where
  "demo_data = [''test'' \<mapsto> PStr ''/tests/basic'', ''filter'' \<mapsto> PList [PStr ''tier: 1'']]"

text \<open>A world whose dependency hook refuses the second call.\<close>

definition failing_hook :: world where
  "failing_hook =
     (demo_world False (Inr (Some ''/repo'')))
       \<lparr>dependencies := (\<lambda>tr req rcm. if tr = [] then Inr (req, rcm) else Inl (OtherError ''hook''))\<rparr>"

section \<open>Facts about the string and path primitives\<close>

lemma not_special_not_backslash: "c \<notin> set special_chars \<Longrightarrow> c \<noteq> backslash"
  by (auto simp: special_chars_def backslash_def)

lemma re_unescape_plain: "c \<noteq> backslash \<Longrightarrow> re_unescape (c # s) = c # re_unescape s"
  by (cases s) simp_all

lemma re_unescape_escape: "re_unescape (re_escape s) = s"
  by (induction s) (simp_all add: re_unescape_plain not_special_not_backslash)

lemma anchored_eqD: "anchored a = anchored b \<Longrightarrow> a = b"
proof -
  assume "anchored a = anchored b"
  then have "re_escape a = re_escape b"
    by (simp add: anchored_def)
  then have "re_unescape (re_escape a) = re_unescape (re_escape b)"
    by simp
  then show "a = b"
    by (simp only: re_unescape_escape)
qed




lemma commonprefix_same: "commonprefix xs xs = xs"
  by (induction xs) simp_all

lemma relpath_same:
  "p \<noteq> [] \<Longrightarrow> abspath c p = abspath c s \<Longrightarrow> relpath c p s = Inr ''.''"
  by (simp add: relpath_def Let_def commonprefix_same)

lemma lstrip_head: "lstrip c s = [] \<or> hd (lstrip c s) \<noteq> c"
  unfolding lstrip_def using hd_dropWhile [of "\<lambda>x. x = c" s] by blast

lemma path_join_relative:
  "b = [] \<or> hd b \<noteq> sep \<Longrightarrow>
   path_join a b = (if a = [] \<or> last a = sep then a @ b else a @ sep # b)"
  unfolding path_join_def by (cases b) simp_all

lemma path_join_lstrip:
  "path_join a (lstrip sep s) =
     (if a = [] \<or> last a = sep then a @ lstrip sep s else a @ sep # lstrip sep s)"
  by (rule path_join_relative [OF lstrip_head])

lemma prefix_path_empty: "prefix_path_of [] = ''/tests/''"
  by (simp add: prefix_path_of_def path_join_def lstrip_def sep_def)

lemma adjust_path_dot: "adjust_path (Some ''.'') = []"
  by (simp add: adjust_path_def)

section \<open>Facts about \<^verbatim>\<open>wake\<close>\<close>

lemma wake_compat_other:
  "key \<in> {''filter'', ''test''} \<Longrightarrow> wake_compat data key = data key"
  by (auto simp: wake_compat_def rename_key_def split: option.splits)

lemma wake_lists_key:
  "key \<in> {''filter'', ''test''} \<Longrightarrow>
   wake_lists data key =
     (case data key of None \<Rightarrow> None | Some v \<Rightarrow> Some (if is_list v then v else PList [v]))"
  by (auto simp: wake_lists_def listify_def split: option.splits)

lemma wake_options_key:
  "key \<in> {''filter'', ''test''} \<Longrightarrow>
   wake_options cmdline data key =
     (if py_truthy (opt cmdline key) then Some (opt cmdline key) else data key)"
  by (auto simp: wake_options_def apply_option_def Let_def)

lemma wake_key:
  assumes "key \<in> {''filter'', ''test''}"
  shows "wake cmdline data key =
     (if py_truthy (opt cmdline key) then Some (opt cmdline key)
      else case data key of
             None \<Rightarrow> None
           | Some v \<Rightarrow> Some (if is_list v then v else PList [v]))"
proof -
  have "wake cmdline data key =
      (if py_truthy (opt cmdline key) then Some (opt cmdline key)
       else wake_lists (wake_compat data) key)"
    unfolding wake_def by (rule wake_options_key [OF assms])
  also have "wake_lists (wake_compat data) key =
      (case wake_compat data key of
         None \<Rightarrow> None
       | Some v \<Rightarrow> Some (if is_list v then v else PList [v]))"
    by (rule wake_lists_key [OF assms])
  finally show ?thesis
    by (simp only: wake_compat_other [OF assms])
qed

lemma is_list_sequence: "is_list v \<Longrightarrow> is_sequence v"
  by (cases v) auto

lemma opt_sequence: "key \<in> {''filter'', ''test''} \<Longrightarrow> is_sequence (opt cmdline key)"
  by (auto simp: opt_def)

section \<open>Facts about actions and their traces\<close>

lemma adds_ret: "adds P (ret x)"
  by (simp add: adds_def ret_def)

lemma adds_throw: "adds P (throw e)"
  by (simp add: adds_def throw_def)

lemma adds_and_then:
  assumes "adds P m" and "\<And>x. adds P (f x)"
  shows "adds P (and_then m f)"
  unfolding adds_def
proof
  fix tr
  obtain r tr1 where m: "m tr = (r, tr1)"
    by (cases "m tr")
  from assms(1) m obtain evs1 where e1: "tr1 = tr @ evs1" "list_all P evs1"
    unfolding adds_def by (metis snd_conv)
  show "\<exists>evs. snd (and_then m f tr) = tr @ evs \<and> list_all P evs"
  proof (cases r)
    case (Inl e)
    with m e1 show ?thesis
      by (auto simp: and_then_def)
  next
    case (Inr x)
    from assms(2) [of x] obtain evs2 where "snd (f x tr1) = tr1 @ evs2" "list_all P evs2"
      unfolding adds_def by blast
    with m e1 Inr show ?thesis
      by (auto simp: and_then_def)
  qed
qed

lemma adds_run: "P (Run c d k) \<Longrightarrow> adds P (do_run w c d k)"
  by (simp add: adds_def do_run_def)

lemma adds_isdir: "adds P (do_isdir w p)"
  by (simp add: adds_def do_isdir_def)

lemma adds_copytree: "P (Copytree s d) \<Longrightarrow> adds P (do_copytree w s d)"
  by (simp add: adds_def do_copytree_def)

lemma adds_stdout_of: "adds P (stdout_of out)"
  by (cases out) (simp_all add: stdout_of_def adds_ret adds_throw)

lemma adds_extend: "adds P (extend ns extra)"
  by (cases ns) (simp_all add: extend_def adds_ret adds_throw)

lemma adds_find_git_root: "P (Run toplevel_cmd (Some r) True) \<Longrightarrow> adds P (find_git_root w r)"
  unfolding adds_def find_git_root_def do_run_def
  by (auto simp: and_then_def ret_def throw_def stdout_of_def
           split: sum.splits error.splits option.splits)

lemmas adds_intros =
  adds_ret adds_throw adds_and_then adds_run adds_isdir adds_copytree adds_stdout_of
  adds_extend adds_find_git_root

lemma adds_acquire:
  assumes "\<And>c d k. P (Run c d k)" and "dry w \<or> (\<forall>s d. P (Copytree s d))"
  shows "adds P (acquire w cfg)"
  using assms unfolding acquire_def Let_def
  by (auto intro!: adds_intros split: sum.splits)

lemma adds_checkout: "(\<And>c d k. P (Run c d k)) \<Longrightarrow> adds P (checkout w cfg)"
  unfolding checkout_def Let_def by (auto intro!: adds_intros)

lemma adds_check_tree: "adds P (check_tree w p)"
  unfolding check_tree_def by (auto intro!: adds_intros)

lemma adds_prepare:
  assumes "\<And>c d k. P (Run c d k)" and "dry w \<or> (\<forall>s d. P (Copytree s d))"
  shows "adds P (prepare w cfg)"
  using assms unfolding prepare_def Let_def
  by (auto intro!: adds_intros adds_acquire adds_checkout adds_check_tree)

lemma adds_fetch_reference: "(\<And>c d k. P (Run c d k)) \<Longrightarrow> adds P (fetch_reference w cfg)"
  unfolding fetch_reference_def Let_def by (auto intro!: adds_intros)

lemma adds_add_modified: "(\<And>c d k. P (Run c d k)) \<Longrightarrow> adds P (add_modified w cfg ns)"
  unfolding add_modified_def Let_def by (auto intro!: adds_intros)

lemma adds_before_select:
  assumes "\<And>c d k. P (Run c d k)" and "dry w \<or> (\<forall>s d. P (Copytree s d))"
  shows "adds P (before_select w cfg)"
  using assms unfolding before_select_def
  by (auto intro!: adds_intros adds_prepare adds_fetch_reference adds_add_modified)

lemma addsD: "adds P m \<Longrightarrow> m tr = (r, tr') \<Longrightarrow> \<exists>evs. tr' = tr @ evs \<and> list_all P evs"
  unfolding adds_def by (metis snd_conv)

lemma and_then_cases:
  assumes "and_then m f tr = (r, tr')"
  obtains e where "m tr = (Inl e, tr')" "r = Inl e"
    | x tr1 where "m tr = (Inr x, tr1)" "f x tr1 = (r, tr')"
  using assms by (auto simp: and_then_def split: prod.splits sum.splits)

lemma and_then_Inr: "m tr = (Inr x, tr1) \<Longrightarrow> and_then m f tr = f x tr1"
  by (simp add: and_then_def)

lemma and_then_Inl: "m tr = (Inl e, tr1) \<Longrightarrow> and_then m f tr = (Inl e, tr1)"
  by (simp add: and_then_def)

section \<open>Facts about the steps of \<^verbatim>\<open>go\<close>\<close>

lemma get_url: "get cfg url ''url'' = url cfg"
  by (simp add: get_def default_def split: option.splits)

lemma get_path: "get cfg path ''path'' = path cfg"
  by (simp add: get_def default_def split: option.splits)

lemma get_reference_url: "get cfg reference_url ''reference_url'' = reference_url cfg"
  by (simp add: get_def default_def split: option.splits)

lemma find_git_root_RunError:
  "run w tr toplevel_cmd (Some r) True = Inl RunError \<Longrightarrow>
   find_git_root w r tr = (Inr r, tr @ [Run toplevel_cmd (Some r) True])"
  by (simp add: find_git_root_def do_run_def)

lemma find_git_root_output:
  "run w tr toplevel_cmd (Some r) True = Inr (Some out) \<Longrightarrow>
   find_git_root w r tr = (Inr (strip nl out), tr @ [Run toplevel_cmd (Some r) True])"
  by (simp add: find_git_root_def do_run_def stdout_of_def and_then_def ret_def)

lemma acquire_local:
  assumes no_url: "\<not> truthy (url cfg)"
    and is_dir: "truthy (path cfg) \<longrightarrow> isdir w [] (the (path cfg))"
    and root: "find_git_root w (if truthy (path cfg) then the (path cfg) else tree_root w) []
                 = (Inr git_root, tr1)"
    and rel: "relpath (getcwd w) (if truthy (path cfg) then the (path cfg) else tree_root w)
                git_root = Inr p"
  shows "acquire w cfg [] =
           (if dry w then (Inr (Some p), tr1)
            else (case copytree w tr1 git_root (testdir w) of
                    None \<Rightarrow> Inr (Some p)
                  | Some e \<Rightarrow> Inl e,
                  tr1 @ [Copytree git_root (testdir w)]))"
proof (cases "truthy (path cfg)")
  case True
  with assms show ?thesis
    by (simp add: acquire_def Let_def get_url get_path and_then_def do_isdir_def ret_def
          do_copytree_def split: option.splits)
next
  case False
  with assms show ?thesis
    by (simp add: acquire_def Let_def get_url get_path and_then_def ret_def
          do_copytree_def split: option.splits)
qed

lemma prepare_path:
  assumes "prepare w cfg tr = (Inr p, tr')"
  shows "\<exists>p0 tr0. acquire w cfg tr = (Inr p0, tr0) \<and> p = adjust_path p0"
  using assms unfolding prepare_def
  by (auto elim!: and_then_cases simp: Let_def ret_def)

lemma check_tree_dry: "dry w \<Longrightarrow> check_tree w p tr = (Inr (), tr)"
  by (simp add: check_tree_def and_then_def do_isdir_def ret_def)

lemma select_tests_dry: "dry w \<Longrightarrow> select_tests w p filters ns tr = (Inr [], tr)"
  by (simp add: select_tests_def ret_def)

lemma add_modified_names:
  assumes "only_modified cfg" and "add_modified w cfg ns tr = (Inr ns', tr')"
  shows "\<exists>out. run w tr (log_cmd (the (get cfg reference_ref ''reference_ref'')))
                  (Some (testdir w)) False = Inr (Some out)
               \<and> items ns' = items ns @ modified_list out"
  using assms
  by (cases ns)
     (auto simp: add_modified_def Let_def and_then_def do_run_def stdout_of_def extend_def
                 ret_def throw_def
           split: sum.splits option.splits)

lemma prefix_tests_adds:
  "\<exists>evs. snd (prefix_tests w pp ts tr) = tr @ evs \<and> list_all (\<lambda>e. \<not> is_run e \<and> (\<forall>a b c. e \<noteq> TreeTests a b c)) evs"
proof (induction ts arbitrary: tr)
  case Nil
  show ?case by simp
next
  case (Cons t ts)
  show ?case
  proof (cases "require t \<noteq> [] \<or> recommend t \<noteq> []")
    case False
    obtain evs where "snd (prefix_tests w pp ts tr) = tr @ evs"
      "list_all (\<lambda>e. \<not> is_run e \<and> (\<forall>a b c. e \<noteq> TreeTests a b c)) evs"
      using Cons.IH [of tr] by blast
    with False show ?thesis
      by (auto simp: prefix_test_def Let_def split: prod.splits)
  next
    case True
    let ?tr1 = "tr @ [Dependencies (require t) (recommend t)]"
    obtain evs where "snd (prefix_tests w pp ts ?tr1) = ?tr1 @ evs"
      "list_all (\<lambda>e. \<not> is_run e \<and> (\<forall>a b c. e \<noteq> TreeTests a b c)) evs"
      using Cons.IH [of ?tr1] by blast
    with True show ?thesis
      by (auto simp: prefix_test_def Let_def do_dependencies_def split: prod.splits sum.splits)
  qed
qed

lemma prefix_tests_shape:
  "prefix_tests w pp ts tr = ((err, ts'), tr') \<Longrightarrow>
   length ts' = length ts
   \<and> map test_name ts' = map test_name ts
   \<and> (err = None \<longrightarrow>
        map test_path ts' = map (\<lambda>t. path_join pp (lstrip sep (test_path t))) ts)
   \<and> (\<forall>e. err = Some e \<longrightarrow>
        (\<exists>n<length ts.
           take (Suc n) (map test_path ts')
             = map (\<lambda>t. path_join pp (lstrip sep (test_path t))) (take (Suc n) ts)
           \<and> ts' ! n = prefix_test pp (ts ! n)
           \<and> (require (ts ! n) \<noteq> [] \<or> recommend (ts ! n) \<noteq> [])
           \<and> drop (Suc n) ts' = drop (Suc n) ts))"
proof (induction ts arbitrary: tr err ts' tr')
  case Nil
  then show ?case by simp
next
  case (Cons t ts)
  let ?t1 = "prefix_test pp t"
  have name: "test_name ?t1 = test_name t" and path1: "test_path ?t1 = path_join pp (lstrip sep (test_path t))"
    and req: "require ?t1 = require t" and rcm: "recommend ?t1 = recommend t"
    by (simp_all add: prefix_test_def)
  show ?case
  proof (cases "require t \<noteq> [] \<or> recommend t \<noteq> []")
    case False
    obtain err2 ts2 tr2 where rec: "prefix_tests w pp ts tr = ((err2, ts2), tr2)"
      by (metis surj_pair)
    with False Cons.prems have res: "err = err2" "ts' = ?t1 # ts2"
      by (simp_all add: req rcm Let_def)
    note IH = Cons.IH [OF rec]
    show ?thesis
    proof (intro conjI impI allI)
      show "length ts' = length (t # ts)" using IH res by simp
      show "map test_name ts' = map test_name (t # ts)" using IH res name by simp
      show "map test_path ts' = map (\<lambda>t. path_join pp (lstrip sep (test_path t))) (t # ts)"
        if "err = None" using IH res path1 that by simp
      show "\<exists>n<length (t # ts).
           take (Suc n) (map test_path ts')
             = map (\<lambda>t. path_join pp (lstrip sep (test_path t))) (take (Suc n) (t # ts))
           \<and> ts' ! n = prefix_test pp ((t # ts) ! n)
           \<and> (require ((t # ts) ! n) \<noteq> [] \<or> recommend ((t # ts) ! n) \<noteq> [])
           \<and> drop (Suc n) ts' = drop (Suc n) (t # ts)" if "err = Some e" for e
      proof -
        from IH res that obtain n where n: "n < length ts"
          "take (Suc n) (map test_path ts2)
             = map (\<lambda>t. path_join pp (lstrip sep (test_path t))) (take (Suc n) ts)"
          "ts2 ! n = prefix_test pp (ts ! n)" "drop (Suc n) ts2 = drop (Suc n) ts"
            "require (ts ! n) \<noteq> [] \<or> recommend (ts ! n) \<noteq> []"
          by blast
        show ?thesis
          by (rule exI [of _ "Suc n"]) (use n res path1 in simp)
      qed
    qed
  next
    case True
    show ?thesis
    proof (cases "dependencies w tr (require t) (recommend t)")
      case (Inl e0)
      with True Cons.prems have res: "err = Some e0" "ts' = ?t1 # ts"
        by (simp_all add: req rcm Let_def do_dependencies_def)
      show ?thesis
      proof (intro conjI impI allI)
        show "length ts' = length (t # ts)" using res by simp
        show "map test_name ts' = map test_name (t # ts)" using res name by simp
        show "map test_path ts' = map (\<lambda>t. path_join pp (lstrip sep (test_path t))) (t # ts)"
          if "err = None" using res that by simp
        show "\<exists>n<length (t # ts).
           take (Suc n) (map test_path ts')
             = map (\<lambda>t. path_join pp (lstrip sep (test_path t))) (take (Suc n) (t # ts))
           \<and> ts' ! n = prefix_test pp ((t # ts) ! n)
           \<and> (require ((t # ts) ! n) \<noteq> [] \<or> recommend ((t # ts) ! n) \<noteq> [])
           \<and> drop (Suc n) ts' = drop (Suc n) (t # ts)" for e
          by (rule exI [of _ 0]) (use res path1 True in simp)
      qed
    next
      case (Inr pair)
      obtain rq rc where pair: "pair = (rq, rc)"
        by (cases pair)
      let ?t2 = "?t1\<lparr>require := rq, recommend := rc\<rparr>"
      let ?tr1 = "tr @ [Dependencies (require t) (recommend t)]"
      obtain err2 ts2 tr2 where rec: "prefix_tests w pp ts ?tr1 = ((err2, ts2), tr2)"
        by (metis surj_pair)
      with True Inr pair Cons.prems have res: "err = err2" "ts' = ?t2 # ts2"
        by (simp_all add: req rcm Let_def do_dependencies_def)
      note IH = Cons.IH [OF rec]
      have name2: "test_name ?t2 = test_name t"
        and path2: "test_path ?t2 = path_join pp (lstrip sep (test_path t))"
        by (simp_all add: prefix_test_def)
      show ?thesis
      proof (intro conjI impI allI)
        show "length ts' = length (t # ts)" using IH res by simp
        show "map test_name ts' = map test_name (t # ts)" using IH res name2 by simp
        show "map test_path ts' = map (\<lambda>t. path_join pp (lstrip sep (test_path t))) (t # ts)"
          if "err = None" using IH res path2 that by simp
        show "\<exists>n<length (t # ts).
           take (Suc n) (map test_path ts')
             = map (\<lambda>t. path_join pp (lstrip sep (test_path t))) (take (Suc n) (t # ts))
           \<and> ts' ! n = prefix_test pp ((t # ts) ! n)
           \<and> (require ((t # ts) ! n) \<noteq> [] \<or> recommend ((t # ts) ! n) \<noteq> [])
           \<and> drop (Suc n) ts' = drop (Suc n) (t # ts)" if "err = Some e" for e
        proof -
          from IH res that obtain n where n: "n < length ts"
            "take (Suc n) (map test_path ts2)
               = map (\<lambda>t. path_join pp (lstrip sep (test_path t))) (take (Suc n) ts)"
            "ts2 ! n = prefix_test pp (ts ! n)" "drop (Suc n) ts2 = drop (Suc n) ts"
            "require (ts ! n) \<noteq> [] \<or> recommend (ts ! n) \<noteq> []"
            by blast
          show ?thesis
            by (rule exI [of _ "Suc n"]) (use n res path2 in simp)
        qed
      qed
    qed
  qed
qed

lemma adds_select_tests: "adds (\<lambda>e. True) (select_tests w p fs ns)"
  unfolding adds_def
proof
  fix tr
  show "\<exists>evs. snd (select_tests w p fs ns tr) = tr @ evs \<and> list_all (\<lambda>e. True) evs"
  proof (cases "dry w")
    case True
    then show ?thesis
      by (simp add: select_tests_dry)
  next
    case False
    let ?tr1 = "tr @ [TreeTests (tree_path_of w p) (items fs) (items ns)]"
    show ?thesis
    proof (cases "tree_tests w tr (tree_path_of w p) (items fs) (items ns)")
      case (Inl e)
      with False show ?thesis
        by (simp add: select_tests_def and_then_def do_tree_tests_def)
    next
      case (Inr tests)
      obtain evs where evs: "snd (prefix_tests w (prefix_path_of p) tests ?tr1) = ?tr1 @ evs"
        using prefix_tests_adds [of w "prefix_path_of p" tests ?tr1] by blast
      have "snd (select_tests w p fs ns tr) = snd (prefix_tests w (prefix_path_of p) tests ?tr1)"
        using False Inr
        by (simp add: select_tests_def and_then_def do_tree_tests_def
              split: prod.splits option.splits)
      with evs show ?thesis
        by (simp add: list_all_iff)
    qed
  qed
qed

lemma go_after_prepare:
  "prepare w cfg [] = (Inr p, tr) \<Longrightarrow>
   go w cfg [] =
     and_then (fetch_reference w cfg) (\<lambda>_.
     and_then (add_modified w cfg (get_names cfg test)) (\<lambda>ns.
     select_tests w p (get_names cfg filter_by) ns)) tr"
  by (simp add: go_def before_select_def and_then_def ret_def split: prod.splits sum.splits)

lemma go_query:
  assumes "TreeTests tp fs qs \<in> set (snd (go w cfg []))"
  shows "\<exists>p ns tr. before_select w cfg [] = (Inr (p, ns), tr) \<and> \<not> dry w
           \<and> tp = tree_path_of w p \<and> fs = items (get_names cfg filter_by) \<and> qs = items ns"
proof -
  let ?P = "\<lambda>e. \<forall>a b c. e \<noteq> TreeTests a b c"
  obtain r tr where bs: "before_select w cfg [] = (r, tr)"
    by (cases "before_select w cfg []")
  have "adds ?P (before_select w cfg)"
    by (rule adds_before_select) simp_all
  from addsD [OF this bs] have clean: "list_all ?P tr"
    by simp
  then have notin: "TreeTests tp fs qs \<notin> set tr"
    by (auto simp: list_all_iff)
  show ?thesis
  proof (cases r)
    case (Inl e)
    with bs have "go w cfg [] = (Inl e, tr)"
      by (simp add: go_def and_then_def)
    with assms notin show ?thesis
      by simp
  next
    case (Inr pair)
    obtain p ns where pair: "pair = (p, ns)"
      by (cases pair)
    from bs Inr pair have go: "go w cfg [] = select_tests w p (get_names cfg filter_by) ns tr"
      by (simp add: go_def and_then_def)
    have nd: "\<not> dry w"
    proof
      assume "dry w"
      with go have "snd (go w cfg []) = tr"
        by (simp add: select_tests_dry)
      with assms notin show False
        by simp
    qed
    let ?ev = "TreeTests (tree_path_of w p) (items (get_names cfg filter_by)) (items ns)"
    have "\<exists>evs. snd (go w cfg []) = tr @ ?ev # evs \<and> list_all ?P evs"
    proof (cases "tree_tests w tr (tree_path_of w p) (items (get_names cfg filter_by)) (items ns)")
      case (Inl e)
      with go nd show ?thesis
        by (simp add: select_tests_def and_then_def do_tree_tests_def)
    next
      case (Inr tests)
      obtain evs where evs: "snd (prefix_tests w (prefix_path_of p) tests (tr @ [?ev]))
          = (tr @ [?ev]) @ evs"
        "list_all (\<lambda>e. \<not> is_run e \<and> (\<forall>a b c. e \<noteq> TreeTests a b c)) evs"
        using prefix_tests_adds [of w "prefix_path_of p" tests "tr @ [?ev]"] by blast
      from evs(2) have "list_all ?P evs"
        by (simp add: list_all_iff)
      with evs(1) Inr go nd show ?thesis
        by (auto simp: select_tests_def and_then_def do_tree_tests_def
                 split: prod.splits option.splits)
    qed
    then obtain evs where "snd (go w cfg []) = tr @ ?ev # evs" "list_all ?P evs"
      by blast
    with assms notin have "TreeTests tp fs qs = ?ev"
      by (auto simp: list_all_iff)
    with bs Inr pair nd show ?thesis
      by simp
  qed
qed

lemma before_select_names:
  assumes "before_select w cfg tr0 = (Inr (p, ns), tr)"
  shows "\<exists>tr2. add_modified w cfg (get_names cfg test) tr2 = (Inr ns, tr)"
  using assms unfolding before_select_def
  by (auto elim!: and_then_cases simp: ret_def)

lemma relpath_total: "p \<noteq> [] \<Longrightarrow> \<exists>r. relpath c p s = Inr r"
  by (simp add: relpath_def Let_def)

lemma do_run_returns:
  "run w tr cmd cwd k = Inr out \<Longrightarrow> do_run w cmd cwd k tr = (Inr out, tr @ [Run cmd cwd k])"
  by (simp add: do_run_def)

lemma add_modified_tuple:
  assumes "only_modified cfg" and "add_modified w cfg (PyTuple xs) tr = (r, tr')"
  shows "\<exists>e. r = Inl e"
  using assms
  by (auto simp: add_modified_def Let_def and_then_def do_run_def stdout_of_def extend_def
                 throw_def ret_def
           split: sum.splits option.splits)

lemma add_modified_tuple_output:
  assumes "only_modified cfg"
    and "run w tr (log_cmd (the (get cfg reference_ref ''reference_ref'')))
           (Some (testdir w)) False = Inr (Some out)"
  shows "add_modified w cfg (PyTuple xs) tr =
     (Inl AttributeError,
      tr @ [Run (log_cmd (the (get cfg reference_ref ''reference_ref''))) (Some (testdir w)) False])"
  using assms
  by (simp add: add_modified_def Let_def and_then_def do_run_def stdout_of_def extend_def
        throw_def ret_def)

lemma add_modified_off: "\<not> only_modified cfg \<Longrightarrow> add_modified w cfg ns tr = (Inr ns, tr)"
  by (simp add: add_modified_def ret_def)

lemma checkout_returns:
  assumes "\<forall>tr cmd cwd. \<exists>out. run w tr cmd cwd False = Inr out"
  shows "\<exists>tr'. checkout w cfg tr = (Inr (), tr')"
proof (cases "truthy (get cfg ref ''ref'')")
  case True
  from assms obtain out
    where "run w tr (checkout_cmd (the (get cfg ref ''ref''))) (Some (testdir w)) False = Inr out"
    by blast
  with True show ?thesis
    by (simp add: checkout_def Let_def and_then_def do_run_def ret_def)
next
  case False
  then show ?thesis
    by (simp add: checkout_def Let_def ret_def)
qed

lemma fetch_reference_returns:
  assumes "\<forall>tr cmd cwd. \<exists>out. run w tr cmd cwd False = Inr out"
  shows "\<exists>tr'. fetch_reference w cfg tr = (Inr (), tr')"
proof (cases "truthy (reference_url cfg)")
  case True
  let ?add = "remote_add_cmd (the (reference_url cfg))"
  from assms obtain out1 where o1: "run w tr ?add (Some (testdir w)) False = Inr out1"
    by blast
  from assms obtain out2
    where o2: "run w (tr @ [Run ?add (Some (testdir w)) False]) fetch_cmd (Some (testdir w)) False
                 = Inr out2"
    by blast
  from True o1 o2 show ?thesis
    by (simp add: fetch_reference_def Let_def get_reference_url and_then_def do_run_def ret_def)
next
  case False
  then show ?thesis
    by (simp add: fetch_reference_def Let_def get_reference_url ret_def)
qed

lemma acquire_dry_returns:
  assumes dry: "dry w"
    and path_ok: "truthy (url cfg) \<or> \<not> truthy (path cfg) \<or> isdir w [] (the (path cfg))"
    and root_ok: "\<not> truthy (url cfg) \<longrightarrow>
        (if truthy (path cfg) then the (path cfg) else tree_root w) \<noteq> []
        \<and> (run w [] toplevel_cmd
               (Some (if truthy (path cfg) then the (path cfg) else tree_root w)) True
             = Inl RunError
           \<or> (\<exists>out. run w [] toplevel_cmd
                  (Some (if truthy (path cfg) then the (path cfg) else tree_root w)) True
                = Inr (Some out)))"
    and cmds_ok: "\<forall>tr cmd cwd. \<exists>out. run w tr cmd cwd False = Inr out"
  shows "\<exists>p0 tr1. acquire w cfg [] = (Inr p0, tr1)"
proof (cases "truthy (url cfg)")
  case True
  from cmds_ok obtain out where "run w [] (clone_cmd w (the (url cfg))) None False = Inr out"
    by blast
  with True show ?thesis
    by (simp add: acquire_def Let_def get_url get_path and_then_def do_run_def ret_def)
next
  case False
  let ?root = "if truthy (path cfg) then the (path cfg) else tree_root w"
  from False root_ok have ne: "?root \<noteq> []"
    and q: "run w [] toplevel_cmd (Some ?root) True = Inl RunError
            \<or> (\<exists>out. run w [] toplevel_cmd (Some ?root) True = Inr (Some out))"
    by blast+
  from q obtain git_root tr1 where root: "find_git_root w ?root [] = (Inr git_root, tr1)"
    using find_git_root_RunError [of w "[]" ?root] find_git_root_output [of w "[]" ?root]
    by blast
  from relpath_total [OF ne] obtain r where rel: "relpath (getcwd w) ?root git_root = Inr r"
    by blast
  from False path_ok have is_dir: "truthy (path cfg) \<longrightarrow> isdir w [] (the (path cfg))"
    by blast
  from acquire_local [OF False is_dir root rel] dry show ?thesis
    by simp
qed

lemma go_dry_returns:
  assumes dry: "dry w" and off: "\<not> only_modified cfg"
    and path_ok: "truthy (url cfg) \<or> \<not> truthy (path cfg) \<or> isdir w [] (the (path cfg))"
    and root_ok: "\<not> truthy (url cfg) \<longrightarrow>
        (if truthy (path cfg) then the (path cfg) else tree_root w) \<noteq> []
        \<and> (run w [] toplevel_cmd
               (Some (if truthy (path cfg) then the (path cfg) else tree_root w)) True
             = Inl RunError
           \<or> (\<exists>out. run w [] toplevel_cmd
                  (Some (if truthy (path cfg) then the (path cfg) else tree_root w)) True
                = Inr (Some out)))"
    and cmds_ok: "\<forall>tr cmd cwd. \<exists>out. run w tr cmd cwd False = Inr out"
  shows "fst (go w cfg []) = Inr []"
proof -
  from acquire_dry_returns [OF dry path_ok root_ok cmds_ok] obtain p0 tr1
    where a: "acquire w cfg [] = (Inr p0, tr1)"
    by blast
  from checkout_returns [OF cmds_ok] obtain tr2 where c: "checkout w cfg tr1 = (Inr (), tr2)"
    by blast
  have "prepare w cfg [] = (Inr (adjust_path p0), tr2)"
    by (simp add: prepare_def and_then_def a c Let_def check_tree_dry [OF dry] ret_def)
  from go_after_prepare [OF this]
  have g: "go w cfg [] =
      and_then (fetch_reference w cfg) (\<lambda>_.
      and_then (add_modified w cfg (get_names cfg test)) (\<lambda>ns.
      select_tests w (adjust_path p0) (get_names cfg filter_by) ns)) tr2" .
  from fetch_reference_returns [OF cmds_ok] obtain tr3
    where f: "fetch_reference w cfg tr2 = (Inr (), tr3)"
    by blast
  show ?thesis
    by (simp add: g and_then_def f add_modified_off [OF off] select_tests_dry [OF dry])
qed

section \<open>The modified set (claims C1 and C5)\<close>

text \<open>
  C1, as the code has it.  For the changed files \<^verbatim>\<open>a/b/x\<close>, \<^verbatim>\<open>a/b/y\<close> and \<^verbatim>\<open>c/z\<close>
  the modified set is \<^verbatim>\<open>{^/a/b$, ^/c$}\<close>: there is one anchored pattern for each
  distinct directory component of a changed file, duplicates collapsed.  The
  directory component is the whole of \<^verbatim>\<open>os.path.dirname\<close>, not its first part:
  in general the set is the image of the non-empty directory components under
  \<open>anchored\<close>, which maps different directories to different patterns.
\<close>

theorem modified_one_pattern_per_directory:
  "modified (log_output [''a/b/x'', ''a/b/y'', ''c/z'']) = {''^/a/b$'', ''^/c$''}
   \<and> modified output = anchored ` {name \<in> set (map dirname (split nl output)). name \<noteq> []}
   \<and> inj anchored"
proof (intro conjI)
  show "modified (log_output [''a/b/x'', ''a/b/y'', ''c/z'']) = {''^/a/b$'', ''^/c$''}"
    by (simp add: modified_def modified_names_def log_output_def nl_def dirname_def sep_def
          rstrip_def anchored_def special_chars_def)
  show "modified output = anchored ` {name \<in> set (map dirname (split nl output)). name \<noteq> []}"
    by (auto simp: modified_def modified_names_def)
  show "inj anchored"
    by (rule injI) (rule anchored_eqD)
qed

text \<open>
  C1 as stated fails: the set computed for these three files is not
  \<^verbatim>\<open>{^/a$, ^/c$}\<close>.
\<close>

theorem modified_top_level_counterexample:
  "modified (log_output [''a/b/x'', ''a/b/y'', ''c/z'']) \<noteq> {''^/a$'', ''^/c$''}"
  by (simp add: modified_def modified_names_def log_output_def nl_def dirname_def sep_def
        rstrip_def anchored_def special_chars_def doubleton_eq_iff)



section \<open>Waking up (claim C9)\<close>

text \<open>
  C9.  After \<^verbatim>\<open>wake\<close> the keys \<^verbatim>\<open>test\<close> and \<^verbatim>\<open>filter\<close>, where present, hold a
  sequence.  The loop of lines 109--112 wraps a value that is not a list into a
  one-element list and leaves a list as it is; the keys are not touched by the
  renaming before it; and the last step keeps the result unless the command line
  gives the option, in which case the key holds the command line's tuple.
\<close>

theorem wake_makes_sequences:
  assumes "key \<in> {''filter'', ''test''}"
  shows "(\<forall>v. wake cmdline data key = Some v \<longrightarrow> is_sequence v)
     \<and> wake_lists data key =
         (case data key of
            None \<Rightarrow> None
          | Some v \<Rightarrow> Some (if is_list v then v else PList [v]))
     \<and> wake cmdline data key =
         (if py_truthy (opt cmdline key) then Some (opt cmdline key)
          else wake_lists data key)"
proof (intro conjI allI impI)
  show lists: "wake_lists data key =
      (case data key of None \<Rightarrow> None | Some v \<Rightarrow> Some (if is_list v then v else PList [v]))"
    by (rule wake_lists_key [OF assms])
  show whole: "wake cmdline data key =
      (if py_truthy (opt cmdline key) then Some (opt cmdline key) else wake_lists data key)"
    by (simp only: wake_key [OF assms] lists)
  fix v
  assume "wake cmdline data key = Some v"
  with whole lists show "is_sequence v"
    using opt_sequence [OF assms, of cmdline]
    by (auto simp: is_list_sequence split: if_splits option.splits)
qed

theorem wake_makes_sequences_witness:
  "''test'' \<in> {''filter'', ''test''}
   \<and> wake no_options demo_data ''test'' = Some (PList [PStr ''/tests/basic''])
   \<and> is_sequence (PList [PStr ''/tests/basic''])
   \<and> wake no_options demo_data ''filter'' = Some (PList [PStr ''tier: 1''])
   \<and> wake (no_options\<lparr>opt_test := [''/smoke'']\<rparr>) demo_data ''test''
       = Some (PTuple [PStr ''/smoke''])"
  using wake_makes_sequences [of "''test''" no_options demo_data]
        wake_makes_sequences [of "''filter''" no_options demo_data]
        wake_makes_sequences [of "''test''" "no_options\<lparr>opt_test := [''/smoke'']\<rparr>" demo_data]
  by (simp add: no_options_def demo_data_def opt_def)

section \<open>Acquiring the tree (claims C2, C3 and C6)\<close>

text \<open>
  C2, as the code has it.  When no \<^verbatim>\<open>url\<close> is configured and \<^verbatim>\<open>path\<close> is set to
  something that is not a directory, \<^verbatim>\<open>go\<close> raises the discovery error of line 138
  and has made no call before: no command was run, nothing was copied.
\<close>

theorem local_path_not_a_directory:
  assumes "\<not> truthy (url cfg)" and "truthy (path cfg)" and "\<not> isdir w [] (the (path cfg))"
  shows "go w cfg [] =
    (Inl (DiscoverError (''Provided path '' @ quoted (the (path cfg)) @ '' is not a directory.'')),
     [])"
proof -
  have "acquire w cfg [] =
    (Inl (DiscoverError (''Provided path '' @ quoted (the (path cfg)) @ '' is not a directory.'')),
     [])"
    using assms
    by (simp add: acquire_def Let_def get_url get_path and_then_def do_isdir_def throw_def)
  then have "prepare w cfg [] =
    (Inl (DiscoverError (''Provided path '' @ quoted (the (path cfg)) @ '' is not a directory.'')),
     [])"
    unfolding prepare_def by (rule and_then_Inl)
  then have "before_select w cfg [] =
    (Inl (DiscoverError (''Provided path '' @ quoted (the (path cfg)) @ '' is not a directory.'')),
     [])"
    unfolding before_select_def by (rule and_then_Inl)
  then show ?thesis
    unfolding go_def by (rule and_then_Inl)
qed

theorem local_path_not_a_directory_witness:
  "\<not> truthy (url (minimal\<lparr>path := Some ''/nonexistent''\<rparr>))
   \<and> truthy (path (minimal\<lparr>path := Some ''/nonexistent''\<rparr>))
   \<and> \<not> isdir (demo_world False (Inl RunError)) [] ''/nonexistent''
   \<and> go (demo_world False (Inl RunError)) (minimal\<lparr>path := Some ''/nonexistent''\<rparr>) [] =
       (Inl (DiscoverError (''Provided path '' @ quoted ''/nonexistent'' @ '' is not a directory.'')),
        [])"
  using local_path_not_a_directory
          [of "minimal\<lparr>path := Some ''/nonexistent''\<rparr>" "demo_world False (Inl RunError)"]
  by (simp add: minimal_def truthy_def demo_world_def demo_isdir_def)

text \<open>
  C2 as stated fails when \<^verbatim>\<open>url\<close> is set: the path check of lines 137--139 is in
  the branch without \<^verbatim>\<open>url\<close>.  With the repository and the path of the
  docstring's full example, \<^verbatim>\<open>/fmf/root\<close> is no directory of the local file system,
  yet \<^verbatim>\<open>go\<close> clones, checks out \<^verbatim>\<open>master\<close> and returns the tests of the tree at
  that path of the clone.
\<close>

theorem url_and_path_counterexample:
  "\<not> isdir (demo_world False (Inl RunError)) [] ''/fmf/root''
   \<and> go (demo_world False (Inl RunError))
        (minimal\<lparr>url := Some ''https://github.com/psss/tmt'', path := Some ''/fmf/root''\<rparr>) [] =
      (Inr [\<lparr>test_name = ''/a/b'', test_path = ''/tests/fmf/root/a/b'',
               require = [''library(x/y)'', ''beakerlib''], recommend = []\<rparr>,
            \<lparr>test_name = ''/c'', test_path = ''/tests/fmf/root/c'',
               require = [], recommend = []\<rparr>],
       [Run (Argv [''git'', ''clone'', ''https://github.com/psss/tmt'', ''/run/tests'']) None False,
        Run (Argv [''git'', ''checkout'', ''-f'', ''master'']) (Some ''/run/tests'') False,
        TreeTests ''/run/tests/fmf/root'' [] [],
        Dependencies [''library(x/y)''] []])"
  by code_simp

text \<open>
  C3, as the code has it.  With no \<^verbatim>\<open>url\<close> and no \<^verbatim>\<open>path\<close>, a non-empty tree root
  and a top-level query that answers with the tree root itself, \<^verbatim>\<open>acquire\<close> fails
  only if the copy does and otherwise leaves \<^verbatim>\<open>.\<close> in \<^verbatim>\<open>path\<close>, which line 165
  turns into the empty string.  Whenever the preparation succeeds the path is
  therefore empty, and the prefix is \<^verbatim>\<open>os.path.join('/tests', '')\<close>, which is
  \<^verbatim>\<open>/tests/\<close> with a trailing separator.
\<close>

theorem tree_root_is_git_root:
  assumes "\<not> truthy (url cfg)" and "\<not> truthy (path cfg)" and "tree_root w \<noteq> []"
    and "run w [] toplevel_cmd (Some (tree_root w)) True = Inr (Some out)"
    and "strip nl out = tree_root w"
  shows "fst (acquire w cfg []) =
           (if dry w then Inr (Some ''.'')
            else case copytree w [Run toplevel_cmd (Some (tree_root w)) True]
                        (tree_root w) (testdir w) of
                   None \<Rightarrow> Inr (Some ''.'')
                 | Some e \<Rightarrow> Inl e)
         \<and> adjust_path (Some ''.'') = []
         \<and> (\<forall>p tr. prepare w cfg [] = (Inr p, tr) \<longrightarrow> p = [] \<and> prefix_path_of p = ''/tests/'')"
proof -
  let ?tr1 = "[Run toplevel_cmd (Some (tree_root w)) True]"
  have root: "find_git_root w (if truthy (path cfg) then the (path cfg) else tree_root w) []
      = (Inr (tree_root w), ?tr1)"
    using assms(2,4,5) find_git_root_output [of w "[]" "tree_root w" out] by simp
  have rel: "relpath (getcwd w) (if truthy (path cfg) then the (path cfg) else tree_root w)
      (tree_root w) = Inr ''.''"
    using assms(2,3) by (simp add: relpath_same)
  have acq: "acquire w cfg [] =
      (if dry w then (Inr (Some ''.''), ?tr1)
       else (case copytree w ?tr1 (tree_root w) (testdir w) of
               None \<Rightarrow> Inr (Some ''.'')
             | Some e \<Rightarrow> Inl e,
             ?tr1 @ [Copytree (tree_root w) (testdir w)]))"
    using assms(2) by (intro acquire_local [OF assms(1) _ root rel]) simp
  have first: "fst (acquire w cfg []) =
      (if dry w then Inr (Some ''.'')
       else case copytree w ?tr1 (tree_root w) (testdir w) of
              None \<Rightarrow> Inr (Some ''.'')
            | Some e \<Rightarrow> Inl e)"
    by (simp add: acq)
  have last: "p = [] \<and> prefix_path_of p = ''/tests/''" if "prepare w cfg [] = (Inr p, tr)" for p tr
  proof -
    from prepare_path [OF that] obtain p0 tr0
      where a: "acquire w cfg [] = (Inr p0, tr0)" and p: "p = adjust_path p0"
      by blast
    from a acq have "p0 = Some ''.''"
      by (auto split: if_splits option.splits)
    with p show ?thesis
      by (simp add: adjust_path_dot prefix_path_empty)
  qed
  from first last show ?thesis
    by (simp add: adjust_path_dot)
qed

theorem tree_root_is_git_root_witness:
  "\<not> truthy (url minimal) \<and> \<not> truthy (path minimal)
   \<and> tree_root (demo_world False (Inr (Some (''/repo'' @ [nl])))) \<noteq> []
   \<and> run (demo_world False (Inr (Some (''/repo'' @ [nl])))) [] toplevel_cmd (Some ''/repo'') True
       = Inr (Some (''/repo'' @ [nl]))
   \<and> strip nl (''/repo'' @ [nl]) = ''/repo''
   \<and> fst (acquire (demo_world False (Inr (Some (''/repo'' @ [nl])))) minimal []) = Inr (Some ''.'')
   \<and> prepare (demo_world False (Inr (Some (''/repo'' @ [nl])))) minimal [] =
       (Inr [], [Run toplevel_cmd (Some ''/repo'') True, Copytree ''/repo'' ''/run/tests''])
   \<and> prefix_path_of [] = ''/tests/''"
proof -
  let ?w = "demo_world False (Inr (Some (''/repo'' @ [nl])))"
  have h1: "\<not> truthy (url minimal)" and h2: "\<not> truthy (path minimal)"
    by (simp_all add: minimal_def truthy_def)
  have h3: "tree_root ?w \<noteq> []"
    by (simp add: demo_world_def)
  have h4: "run ?w [] toplevel_cmd (Some (tree_root ?w)) True = Inr (Some (''/repo'' @ [nl]))"
    by (simp add: demo_world_def demo_run_def)
  have h5: "strip nl (''/repo'' @ [nl]) = tree_root ?w"
    by (simp add: demo_world_def strip_def lstrip_def rstrip_def nl_def)
  have run: "prepare ?w minimal [] =
      (Inr [], [Run toplevel_cmd (Some ''/repo'') True, Copytree ''/repo'' ''/run/tests''])"
    by code_simp
  from tree_root_is_git_root [OF h1 h2 h3 h4 h5] h1 h2 h3 h4 h5 run show ?thesis
    by (simp add: demo_world_def)
qed

text \<open>
  C3 as stated fails on the prefix: in a run with the minimal configuration and the
  tree root equal to the repository's root the path is empty, and the prefix computed
  from it is not \<^verbatim>\<open>/tests\<close>.
\<close>

theorem prefix_path_counterexample:
  "fst (prepare (demo_world False (Inr (Some (''/repo'' @ [nl])))) minimal []) = Inr []
   \<and> prefix_path_of [] \<noteq> ''/tests''"
  by code_simp

text \<open>
  C6.  Without \<^verbatim>\<open>url\<close>, with \<^verbatim>\<open>path\<close> unset or an existing directory, and with a
  top-level query that raises \<^verbatim>\<open>RunError\<close>: the error is caught, the one call made
  besides the query is the copy of the metadata root itself into the test directory
  (none in dry mode), \<^verbatim>\<open>acquire\<close> raises only what the copy raises, and the path
  it leaves is \<^verbatim>\<open>.\<close>, the metadata root relative to itself, which line 165 turns
  into the empty string.
\<close>

theorem git_root_not_found:
  assumes "\<not> truthy (url cfg)"
    and "truthy (path cfg) \<longrightarrow> isdir w [] (the (path cfg))"
    and "fmf_root = (if truthy (path cfg) then the (path cfg) else tree_root w)"
    and "fmf_root \<noteq> []"
    and "run w [] toplevel_cmd (Some fmf_root) True = Inl RunError"
  shows "acquire w cfg [] =
           (if dry w then (Inr (Some ''.''), [Run toplevel_cmd (Some fmf_root) True])
            else (case copytree w [Run toplevel_cmd (Some fmf_root) True] fmf_root (testdir w) of
                    None \<Rightarrow> Inr (Some ''.'')
                  | Some e \<Rightarrow> Inl e,
                  [Run toplevel_cmd (Some fmf_root) True, Copytree fmf_root (testdir w)]))
         \<and> adjust_path (Some ''.'') = []"
proof -
  let ?tr1 = "[Run toplevel_cmd (Some fmf_root) True]"
  have root: "find_git_root w (if truthy (path cfg) then the (path cfg) else tree_root w) []
      = (Inr fmf_root, ?tr1)"
    using assms(3,5) find_git_root_RunError [of w "[]" fmf_root] by simp
  have rel: "relpath (getcwd w) (if truthy (path cfg) then the (path cfg) else tree_root w)
      fmf_root = Inr ''.''"
    using assms(3,4) by (simp add: relpath_same)
  have "acquire w cfg [] =
      (if dry w then (Inr (Some ''.''), ?tr1)
       else (case copytree w ?tr1 fmf_root (testdir w) of
               None \<Rightarrow> Inr (Some ''.'')
             | Some e \<Rightarrow> Inl e,
             ?tr1 @ [Copytree fmf_root (testdir w)]))"
    by (rule acquire_local [OF assms(1,2) root rel])
  then show ?thesis
    by (simp add: adjust_path_dot)
qed

theorem git_root_not_found_witness:
  "\<not> truthy (url (minimal\<lparr>path := Some ''/repo/sub''\<rparr>))
   \<and> isdir (demo_world False (Inl RunError)) [] ''/repo/sub''
   \<and> run (demo_world False (Inl RunError)) [] toplevel_cmd (Some ''/repo/sub'') True = Inl RunError
   \<and> acquire (demo_world False (Inl RunError)) (minimal\<lparr>path := Some ''/repo/sub''\<rparr>) [] =
       (Inr (Some ''.''),
        [Run toplevel_cmd (Some ''/repo/sub'') True, Copytree ''/repo/sub'' ''/run/tests''])
   \<and> adjust_path (Some ''.'') = []"
proof -
  let ?w = "demo_world False (Inl RunError)"
  let ?cfg = "minimal\<lparr>path := Some ''/repo/sub''\<rparr>"
  have h1: "\<not> truthy (url ?cfg)"
    by (simp add: minimal_def truthy_def)
  have h2: "truthy (path ?cfg) \<longrightarrow> isdir ?w [] (the (path ?cfg))"
    by (simp add: demo_world_def demo_isdir_def)
  have h3: "''/repo/sub'' = (if truthy (path ?cfg) then the (path ?cfg) else tree_root ?w)"
    by (simp add: truthy_def)
  have h4: "''/repo/sub'' \<noteq> []"
    by simp
  have h5: "run ?w [] toplevel_cmd (Some ''/repo/sub'') True = Inl RunError"
    by (simp add: demo_world_def demo_run_def)
  have td: "testdir ?w = ''/run/tests''"
    by (simp add: testdir_def demo_world_def path_join_def sep_def)
  from git_root_not_found [OF h1 h2 h3 h4 h5] h1 h2 h5 td show ?thesis
    by (simp add: demo_world_def truthy_def)
qed

section \<open>Rewriting the paths (claim C4)\<close>

text \<open>
  C4, as the code has it.  Line 215 sets the path of a test to
  \<^verbatim>\<open>os.path.join(prefix_path, path.lstrip('/'))\<close>: the prefix followed by the
  stripped path, with one separator between them unless the prefix is empty or ends
  in a separator already; nothing is normalised.  When the loop completes, every
  test has the join of the prefix and its own stripped path, so the rewrite is
  applied once to each.  When the loop is left by an exception, it is left at a test
  that has requirements or recommendations: that test has its path rewritten and its
  dependencies untouched, so its rewrite came before its dependency expansion; the
  tests before it are rewritten and the tests after it are as they were.
\<close>

theorem prefix_tests_rewrites:
  assumes "prefix_tests w pp ts tr = ((err, ts'), tr')"
  shows "length ts' = length ts
     \<and> (err = None \<longrightarrow>
          map test_path ts' = map (\<lambda>t. path_join pp (lstrip sep (test_path t))) ts)
     \<and> (\<forall>e. err = Some e \<longrightarrow>
          (\<exists>n<length ts.
             take (Suc n) (map test_path ts')
               = map (\<lambda>t. path_join pp (lstrip sep (test_path t))) (take (Suc n) ts)
             \<and> ts' ! n = prefix_test pp (ts ! n)
             \<and> (require (ts ! n) \<noteq> [] \<or> recommend (ts ! n) \<noteq> [])
             \<and> drop (Suc n) ts' = drop (Suc n) ts))
     \<and> path_join pp (lstrip sep p) =
          (if pp = [] \<or> last pp = sep then pp @ lstrip sep p else pp @ sep # lstrip sep p)"
  using prefix_tests_shape [OF assms] path_join_lstrip [of pp p] by blast

theorem prefix_tests_rewrites_witness:
  "prefix_tests (demo_world False (Inl RunError)) ''/tests/sub'' demo_tests [] =
     ((None,
       [\<lparr>test_name = ''/a/b'', test_path = ''/tests/sub/a/b'',
          require = [''library(x/y)'', ''beakerlib''], recommend = []\<rparr>,
        \<lparr>test_name = ''/c'', test_path = ''/tests/sub/c'', require = [], recommend = []\<rparr>]),
      [Dependencies [''library(x/y)''] []])
   \<and> prefix_tests failing_hook ''/tests/'' (demo_tests @ demo_tests) [] =
     ((Some (OtherError ''hook''),
       [\<lparr>test_name = ''/a/b'', test_path = ''/tests/a/b'',
          require = [''library(x/y)''], recommend = []\<rparr>,
        \<lparr>test_name = ''/c'', test_path = ''/tests/c'', require = [], recommend = []\<rparr>,
        \<lparr>test_name = ''/a/b'', test_path = ''/tests/a/b'',
          require = [''library(x/y)''], recommend = []\<rparr>,
        \<lparr>test_name = ''/c'', test_path = ''/c'', require = [], recommend = []\<rparr>]),
      [Dependencies [''library(x/y)''] [], Dependencies [''library(x/y)''] []])
   \<and> map test_path
        [\<lparr>test_name = ''/a/b'', test_path = ''/tests/sub/a/b'',
           require = [''library(x/y)'', ''beakerlib''], recommend = []\<rparr>,
         \<lparr>test_name = ''/c'', test_path = ''/tests/sub/c'', require = [], recommend = []\<rparr>]
       = map (\<lambda>t. path_join ''/tests/sub'' (lstrip sep (test_path t))) demo_tests"
proof -
  let ?ok = "[\<lparr>test_name = ''/a/b'', test_path = ''/tests/sub/a/b'',
          require = [''library(x/y)'', ''beakerlib''], recommend = []\<rparr>,
        \<lparr>test_name = ''/c'', test_path = ''/tests/sub/c'', require = [], recommend = []\<rparr>]"
  let ?left = "[\<lparr>test_name = ''/a/b'', test_path = ''/tests/a/b'',
          require = [''library(x/y)''], recommend = []\<rparr>,
        \<lparr>test_name = ''/c'', test_path = ''/tests/c'', require = [], recommend = []\<rparr>,
        \<lparr>test_name = ''/a/b'', test_path = ''/tests/a/b'',
          require = [''library(x/y)''], recommend = []\<rparr>,
        \<lparr>test_name = ''/c'', test_path = ''/c'', require = [], recommend = []\<rparr>]"
  have run1: "prefix_tests (demo_world False (Inl RunError)) ''/tests/sub'' demo_tests [] =
      ((None, ?ok), [Dependencies [''library(x/y)''] []])"
    by code_simp
  have run2: "prefix_tests failing_hook ''/tests/'' (demo_tests @ demo_tests) [] =
      ((Some (OtherError ''hook''), ?left),
       [Dependencies [''library(x/y)''] [], Dependencies [''library(x/y)''] []])"
    by code_simp
  have paths: "map test_path ?ok
      = map (\<lambda>t. path_join ''/tests/sub'' (lstrip sep (test_path t))) demo_tests"
    by (rule prefix_tests_rewrites
          [OF run1, of "[]", THEN conjunct2, THEN conjunct1, THEN mp, OF refl])
  from run1 run2 paths show ?thesis
    by (intro conjI)
qed

text \<open>
  C4 as stated fails on the formula.  With the prefix of a run whose path is empty,
  the test at the root of the tree (path \<^verbatim>\<open>/\<close>) gets the path \<^verbatim>\<open>/tests/\<close>, where
  the normalised concatenation is \<^verbatim>\<open>/tests\<close>; and with an empty prefix the path
  \<^verbatim>\<open>/foo\<close> becomes \<^verbatim>\<open>foo\<close>, not the original path.
\<close>

theorem rewrite_not_normalised_counterexample:
  "test_path (prefix_test (prefix_path_of [])
      \<lparr>test_name = ''/'', test_path = ''/'', require = [], recommend = []\<rparr>) = ''/tests/''
   \<and> spec_rewrite (prefix_path_of []) ''/'' = ''/tests''
   \<and> test_path (prefix_test []
      \<lparr>test_name = ''/foo'', test_path = ''/foo'', require = [], recommend = []\<rparr>) = ''foo''
   \<and> spec_rewrite [] ''/foo'' = ''/foo''"
  by code_simp

section \<open>Selecting the tests (claims C7, C8 and C10)\<close>

text \<open>
  Names from the configuration file.  With \<^verbatim>\<open>only_modified\<close>, whenever \<^verbatim>\<open>go\<close>
  queries the tree, the log command has printed some output, and the names handed to
  the query are, as a set, the names of \<^verbatim>\<open>test\<close> together with the modified set of
  that output.  Under the query's contract a test that passes the filters is then
  selected as soon as it matches one of the explicit names or one of the patterns of
  the modified set.  A query is only ever reached with a list of names, as the
  theorem after this one shows.
\<close>

lemma list_names_passed_to_query:
  assumes "only_modified cfg" and "TreeTests tp fs qs \<in> set (snd (go w cfg []))"
  shows "\<exists>tr out.
           run w tr
               (Argv [''git'', ''log'', ''--format='', ''--stat'', ''--name-only'',
                      the (get cfg reference_ref ''reference_ref'') @ ''..HEAD''])
               (Some (path_join (workdir w) ''tests'')) False = Inr (Some out)
         \<and> set qs = set (items (get_names cfg test)) \<union> modified out
         \<and> (\<forall>name_match filter_match t.
              list_all (\<lambda>f. filter_match f t) fs
              \<and> (\<exists>n \<in> set (items (get_names cfg test)) \<union> modified out. name_match n t)
              \<longrightarrow> selected name_match filter_match fs qs t)"
proof -
  from go_query [OF assms(2)] obtain p ns tr
    where bs: "before_select w cfg [] = (Inr (p, ns), tr)" and qs: "qs = items ns"
    by blast
  from before_select_names [OF bs] obtain tr2
    where am: "add_modified w cfg (get_names cfg test) tr2 = (Inr ns, tr)"
    by blast
  from add_modified_names [OF assms(1) am] obtain out
    where out: "run w tr2 (log_cmd (the (get cfg reference_ref ''reference_ref'')))
                  (Some (testdir w)) False = Inr (Some out)"
      and ns: "items ns = items (get_names cfg test) @ modified_list out"
    by blast
  have set_qs: "set qs = set (items (get_names cfg test)) \<union> modified out"
    by (simp add: qs ns modified_list_def modified_def)
  have sel: "\<forall>name_match filter_match t.
      list_all (\<lambda>f. filter_match f t) fs
      \<and> (\<exists>n \<in> set (items (get_names cfg test)) \<union> modified out. name_match n t)
      \<longrightarrow> selected name_match filter_match fs qs t"
  proof (intro allI impI)
    fix name_match :: "string \<Rightarrow> testcase \<Rightarrow> bool"
    fix filter_match :: "string \<Rightarrow> testcase \<Rightarrow> bool" and t
    assume a: "list_all (\<lambda>f. filter_match f t) fs
      \<and> (\<exists>n \<in> set (items (get_names cfg test)) \<union> modified out. name_match n t)"
    then obtain n where "n \<in> set qs" "name_match n t"
      unfolding set_qs by (elim conjE bexE)
    then have lx: "list_ex (\<lambda>n. name_match n t) qs"
      unfolding list_ex_iff by (rule bexI [rotated])
    from a have fa: "list_all (\<lambda>f. filter_match f t) fs"
      by (rule conjunct1)
    show "selected name_match filter_match fs qs t"
      unfolding selected_def using lx fa by simp
  qed
  show ?thesis
    apply (rule exI [of _ tr2])
    apply (rule exI [of _ out])
    apply (intro conjI)
      apply (rule out [unfolded log_cmd_def testdir_def])
     apply (rule set_qs)
    apply (rule sel)
    done
qed

lemma list_names_passed_to_query_example:
  "only_modified (minimal\<lparr>only_modified := True, test := Some (PyList [''foo''])\<rparr>)
   \<and> TreeTests ''/run/tests/'' [] [''foo'', ''^/a/b$'', ''^/c$'']
       \<in> set (snd (go (demo_world False (Inr (Some ''/repo'')))
                      (minimal\<lparr>only_modified := True, test := Some (PyList [''foo''])\<rparr>) []))
   \<and> (\<exists>tr out.
         run (demo_world False (Inr (Some ''/repo''))) tr
           (Argv [''git'', ''log'', ''--format='', ''--stat'', ''--name-only'', ''master..HEAD''])
           (Some ''/run/tests'') False = Inr (Some out)
         \<and> set [''foo'', ''^/a/b$'', ''^/c$''] = set [''foo''] \<union> modified out)
   \<and> modified (log_output [''a/b/x'', ''a/b/y'', ''c/z'']) = {''^/a/b$'', ''^/c$''}
   \<and> selected (\<lambda>n t. n = ''^'' @ test_name t @ ''$'') (\<lambda>f t. True) []
        [''foo'', ''^/a/b$'', ''^/c$'']
        \<lparr>test_name = ''/c'', test_path = ''/c'', require = [], recommend = []\<rparr>"
proof -
  let ?cfg = "minimal\<lparr>only_modified := True, test := Some (PyList [''foo''])\<rparr>"
  let ?w = "demo_world False (Inr (Some ''/repo''))"
  have h1: "only_modified ?cfg"
    by simp
  have h2: "TreeTests ''/run/tests/'' [] [''foo'', ''^/a/b$'', ''^/c$'']
      \<in> set (snd (go ?w ?cfg []))"
    by code_simp
  have m: "modified (log_output [''a/b/x'', ''a/b/y'', ''c/z'']) = {''^/a/b$'', ''^/c$''}"
    by (simp add: modified_def modified_names_def log_output_def nl_def dirname_def sep_def
          rstrip_def anchored_def special_chars_def)
  have s: "selected (\<lambda>n t. n = ''^'' @ test_name t @ ''$'') (\<lambda>f t. True) []
        [''foo'', ''^/a/b$'', ''^/c$'']
        \<lparr>test_name = ''/c'', test_path = ''/c'', require = [], recommend = []\<rparr>"
    by (simp add: selected_def)
  have g: "the (get ?cfg reference_ref ''reference_ref'') @ ''..HEAD'' = ''master..HEAD''"
    by (simp add: get_def default_def minimal_def)
  have td: "path_join (workdir ?w) ''tests'' = ''/run/tests''"
    by (simp add: demo_world_def path_join_def sep_def)
  have n: "items (get_names ?cfg test) = [''foo'']"
    by (simp add: get_names_def)
  have "\<exists>tr out. run ?w tr
               (Argv [''git'', ''log'', ''--format='', ''--stat'', ''--name-only'',
                      the (get ?cfg reference_ref ''reference_ref'') @ ''..HEAD''])
               (Some (path_join (workdir ?w) ''tests'')) False = Inr (Some out)
         \<and> set [''foo'', ''^/a/b$'', ''^/c$''] = set (items (get_names ?cfg test)) \<union> modified out"
    using list_names_passed_to_query [OF h1 h2] by blast
  then have e: "\<exists>tr out. run ?w tr
           (Argv [''git'', ''log'', ''--format='', ''--stat'', ''--name-only'', ''master..HEAD''])
           (Some ''/run/tests'') False = Inr (Some out)
         \<and> set [''foo'', ''^/a/b$'', ''^/c$''] = set [''foo''] \<union> modified out"
    by (simp only: g td n)
  from h1 h2 e m s show ?thesis
    by (intro conjI)
qed

text \<open>
  C7 fails for names given on the command line.  The option \<^verbatim>\<open>--test\<close> is declared
  \<^verbatim>\<open>multiple=True\<close>, so \<^verbatim>\<open>wake\<close> stores a tuple under \<^verbatim>\<open>test\<close>, and line 202 calls
  \<^verbatim>\<open>names.extend\<close> on it.  For every world and every configuration with
  \<^verbatim>\<open>only_modified\<close> and a tuple of names, \<^verbatim>\<open>go\<close> raises and never queries the tree,
  so no test is selected, named or modified; once the log command has printed its
  output the exception is the \<^verbatim>\<open>AttributeError\<close> of \<^verbatim>\<open>extend\<close>.  The docstring
  (lines 49--50) promises that the tests named by \<^verbatim>\<open>test\<close> are selected too.
\<close>

theorem command_line_names_never_selected:
  assumes "only_modified cfg" and "test cfg = Some (PyTuple xs)"
  shows "(\<exists>e. fst (go w cfg []) = Inl e)
     \<and> TreeTests tp fs qs \<notin> set (snd (go w cfg []))
     \<and> (\<forall>tr out.
          run w tr
            (Argv [''git'', ''log'', ''--format='', ''--stat'', ''--name-only'',
                   the (get cfg reference_ref ''reference_ref'') @ ''..HEAD''])
            (Some (path_join (workdir w) ''tests'')) False = Inr (Some out)
          \<longrightarrow> add_modified w cfg (get_names cfg test) tr =
                (Inl AttributeError,
                 tr @ [Run (Argv [''git'', ''log'', ''--format='', ''--stat'', ''--name-only'',
                                  the (get cfg reference_ref ''reference_ref'') @ ''..HEAD''])
                         (Some (path_join (workdir w) ''tests'')) False]))"
proof (intro conjI allI impI)
  have gn: "get_names cfg test = PyTuple xs"
    by (simp add: get_names_def assms(2))
  have no_names: False if "before_select w cfg [] = (Inr (p, ns), tr)" for p ns tr
  proof -
    from before_select_names [OF that] obtain tr2
      where "add_modified w cfg (PyTuple xs) tr2 = (Inr ns, tr)"
      unfolding gn by blast
    from add_modified_tuple [OF assms(1) this] show False
      by simp
  qed
  obtain r tr where bs: "before_select w cfg [] = (r, tr)"
    by (cases "before_select w cfg []")
  show "\<exists>e. fst (go w cfg []) = Inl e"
  proof (cases r)
    case (Inl e)
    with bs show ?thesis
      by (simp add: go_def and_then_def)
  next
    case (Inr pair)
    with bs no_names [of "fst pair" "snd pair" tr] show ?thesis
      by simp
  qed
  show "TreeTests tp fs qs \<notin> set (snd (go w cfg []))"
  proof
    assume "TreeTests tp fs qs \<in> set (snd (go w cfg []))"
    from go_query [OF this] obtain p ns tr' where "before_select w cfg [] = (Inr (p, ns), tr')"
      by blast
    then show False
      by (rule no_names)
  qed
  fix tr out
  assume "run w tr
            (Argv [''git'', ''log'', ''--format='', ''--stat'', ''--name-only'',
                   the (get cfg reference_ref ''reference_ref'') @ ''..HEAD''])
            (Some (path_join (workdir w) ''tests'')) False = Inr (Some out)"
  then have "run w tr (log_cmd (the (get cfg reference_ref ''reference_ref'')))
      (Some (testdir w)) False = Inr (Some out)"
    by (simp only: log_cmd_def testdir_def)
  from add_modified_tuple_output [OF assms(1) this, of xs]
  show "add_modified w cfg (get_names cfg test) tr =
      (Inl AttributeError,
       tr @ [Run (Argv [''git'', ''log'', ''--format='', ''--stat'', ''--name-only'',
                        the (get cfg reference_ref ''reference_ref'') @ ''..HEAD''])
               (Some (path_join (workdir w) ''tests'')) False])"
    by (simp only: gn log_cmd_def testdir_def)
qed

theorem command_line_names_never_selected_witness:
  "wake (no_options\<lparr>opt_only_modified := True, opt_test := [''foo'']\<rparr>) Map.empty ''test''
     = Some (PTuple [PStr ''foo''])
   \<and> only_modified (minimal\<lparr>only_modified := True, test := Some (PyTuple [''foo''])\<rparr>)
   \<and> test (minimal\<lparr>only_modified := True, test := Some (PyTuple [''foo''])\<rparr>)
       = Some (PyTuple [''foo''])
   \<and> (\<exists>e. fst (go (demo_world False (Inr (Some ''/repo'')))
                   (minimal\<lparr>only_modified := True, test := Some (PyTuple [''foo''])\<rparr>) [])
            = Inl e)
   \<and> go (demo_world False (Inr (Some ''/repo'')))
        (minimal\<lparr>only_modified := True, test := Some (PyTuple [''foo''])\<rparr>) [] =
       (Inl AttributeError,
        [Run (Shell ''git rev-parse --show-toplevel'') (Some ''/repo'') True,
         Copytree ''/repo'' ''/run/tests'',
         Run (Argv [''git'', ''log'', ''--format='', ''--stat'', ''--name-only'', ''master..HEAD''])
           (Some ''/run/tests'') False])
   \<and> fst (go (demo_world False (Inr (Some ''/repo'')))
        (minimal\<lparr>only_modified := True, test := Some (PyList [''foo''])\<rparr>) []) =
       Inr [\<lparr>test_name = ''/a/b'', test_path = ''/tests/a/b'',
               require = [''library(x/y)'', ''beakerlib''], recommend = []\<rparr>,
            \<lparr>test_name = ''/c'', test_path = ''/tests/c'', require = [], recommend = []\<rparr>]"
proof -
  let ?cfg = "minimal\<lparr>only_modified := True, test := Some (PyTuple [''foo''])\<rparr>"
  let ?w = "demo_world False (Inr (Some ''/repo''))"
  have wk: "wake (no_options\<lparr>opt_only_modified := True, opt_test := [''foo'']\<rparr>) Map.empty ''test''
     = Some (PTuple [PStr ''foo''])"
    by code_simp
  have h1: "only_modified ?cfg"
    by simp
  have h2: "test ?cfg = Some (PyTuple [''foo''])"
    by simp
  have raises: "\<exists>e. fst (go ?w ?cfg []) = Inl e"
    by (rule command_line_names_never_selected [OF h1 h2, THEN conjunct1])
  have run: "go ?w ?cfg [] =
       (Inl AttributeError,
        [Run (Shell ''git rev-parse --show-toplevel'') (Some ''/repo'') True,
         Copytree ''/repo'' ''/run/tests'',
         Run (Argv [''git'', ''log'', ''--format='', ''--stat'', ''--name-only'', ''master..HEAD''])
           (Some ''/run/tests'') False])"
    by code_simp
  have list: "fst (go ?w (minimal\<lparr>only_modified := True, test := Some (PyList [''foo''])\<rparr>) []) =
       Inr [\<lparr>test_name = ''/a/b'', test_path = ''/tests/a/b'',
               require = [''library(x/y)'', ''beakerlib''], recommend = []\<rparr>,
            \<lparr>test_name = ''/c'', test_path = ''/tests/c'', require = [], recommend = []\<rparr>]"
    by code_simp
  from wk h1 h2 raises run list show ?thesis
    by (intro conjI)
qed

text \<open>
  C8, as the code has it.  In a dry run the only calls \<^verbatim>\<open>go\<close> makes are calls of
  \<^verbatim>\<open>self.run\<close>: the tree is never queried, nothing is copied, no dependency is
  expanded, and the check of the tree path at lines 171--173 never raises.  A dry
  run without \<^verbatim>\<open>only_modified\<close> returns the empty list of tests whenever the
  validation of \<^verbatim>\<open>path\<close> passes (\<^verbatim>\<open>url\<close> is set, or \<^verbatim>\<open>path\<close> is unset or an
  existing directory), the metadata root of a run without \<^verbatim>\<open>url\<close> is not the empty
  string and the top-level query on it prints an answer or raises \<^verbatim>\<open>RunError\<close>, and
  no command called without \<^verbatim>\<open>dry=True\<close> raises.
\<close>

theorem dry_run_selects_nothing:
  assumes "dry w"
  shows "list_all is_run (snd (go w cfg []))
     \<and> TreeTests tp fs qs \<notin> set (snd (go w cfg []))
     \<and> Copytree src dst \<notin> set (snd (go w cfg []))
     \<and> check_tree w p tr0 = (Inr (), tr0)
     \<and> (\<not> only_modified cfg
        \<and> (truthy (url cfg) \<or> \<not> truthy (path cfg) \<or> isdir w [] (the (path cfg)))
        \<and> (\<not> truthy (url cfg) \<longrightarrow>
             (if truthy (path cfg) then the (path cfg) else tree_root w) \<noteq> []
             \<and> (run w [] (Shell ''git rev-parse --show-toplevel'')
                    (Some (if truthy (path cfg) then the (path cfg) else tree_root w)) True
                  = Inl RunError
                \<or> (\<exists>out. run w [] (Shell ''git rev-parse --show-toplevel'')
                       (Some (if truthy (path cfg) then the (path cfg) else tree_root w)) True
                     = Inr (Some out))))
        \<and> (\<forall>tr cmd cwd. \<exists>out. run w tr cmd cwd False = Inr out)
        \<longrightarrow> fst (go w cfg []) = Inr [])"
proof -
  have eq: "go w cfg [] =
      (case before_select w cfg [] of
         (Inl e, tr) \<Rightarrow> (Inl e, tr)
       | (Inr x, tr) \<Rightarrow> (Inr [], tr))"
    using assms
    by (simp add: go_def and_then_def select_tests_dry split: prod.splits sum.splits)
  then have tr: "snd (go w cfg []) = snd (before_select w cfg [])"
    by (simp split: prod.splits sum.splits)
  have "adds is_run (before_select w cfg)"
    using assms by (intro adds_before_select) simp_all
  from addsD [OF this surjective_pairing, of "[]"]
  have runs: "list_all is_run (snd (go w cfg []))"
    unfolding tr by auto
  then have none: "TreeTests tp fs qs \<notin> set (snd (go w cfg []))"
    "Copytree src dst \<notin> set (snd (go w cfg []))"
    by (auto simp: list_all_iff)
  have returns: "fst (go w cfg []) = Inr []"
    if "\<not> only_modified cfg
        \<and> (truthy (url cfg) \<or> \<not> truthy (path cfg) \<or> isdir w [] (the (path cfg)))
        \<and> (\<not> truthy (url cfg) \<longrightarrow>
             (if truthy (path cfg) then the (path cfg) else tree_root w) \<noteq> []
             \<and> (run w [] (Shell ''git rev-parse --show-toplevel'')
                    (Some (if truthy (path cfg) then the (path cfg) else tree_root w)) True
                  = Inl RunError
                \<or> (\<exists>out. run w [] (Shell ''git rev-parse --show-toplevel'')
                       (Some (if truthy (path cfg) then the (path cfg) else tree_root w)) True
                     = Inr (Some out))))
        \<and> (\<forall>tr cmd cwd. \<exists>out. run w tr cmd cwd False = Inr out)"
  proof -
    note off = that [THEN conjunct1]
      and path_ok = that [THEN conjunct2, THEN conjunct1]
      and root_ok = that [THEN conjunct2, THEN conjunct2, THEN conjunct1,
                          folded toplevel_cmd_def]
      and cmds_ok = that [THEN conjunct2, THEN conjunct2, THEN conjunct2]
    show ?thesis
      by (rule go_dry_returns [OF assms off path_ok root_ok cmds_ok])
  qed
  from runs none check_tree_dry [OF assms] returns show ?thesis
    by (intro conjI impI)
qed

theorem dry_run_selects_nothing_witness:
  "dry (demo_world True (Inr (Some ''/repo'')))
   \<and> \<not> only_modified minimal
   \<and> \<not> truthy (url minimal) \<and> \<not> truthy (path minimal)
   \<and> tree_root (demo_world True (Inr (Some ''/repo''))) \<noteq> []
   \<and> run (demo_world True (Inr (Some ''/repo''))) [] (Shell ''git rev-parse --show-toplevel'')
        (Some ''/repo'') True = Inr (Some ''/repo'')
   \<and> (\<forall>tr cmd cwd. \<exists>out. run (demo_world True (Inr (Some ''/repo''))) tr cmd cwd False = Inr out)
   \<and> fst (go (demo_world True (Inr (Some ''/repo''))) minimal []) = Inr []
   \<and> go (demo_world True (Inr (Some ''/repo''))) minimal [] =
       (Inr [], [Run (Shell ''git rev-parse --show-toplevel'') (Some ''/repo'') True])
   \<and> go (demo_world True (Inr (Some ''/repo'')))
        (minimal\<lparr>url := Some ''https://github.com/psss/tmt''\<rparr>) [] =
       (Inr [],
        [Run (Argv [''git'', ''clone'', ''https://github.com/psss/tmt'', ''/run/tests'']) None False,
         Run (Argv [''git'', ''checkout'', ''-f'', ''master'']) (Some ''/run/tests'') False])"
proof -
  let ?w = "demo_world True (Inr (Some ''/repo''))"
  have h: "dry ?w"
    by (simp add: demo_world_def)
  have off: "\<not> only_modified minimal"
    by (simp add: minimal_def)
  have nu: "\<not> truthy (url minimal)" and np: "\<not> truthy (path minimal)"
    by (simp_all add: minimal_def truthy_def)
  have root: "tree_root ?w \<noteq> []" and tr: "tree_root ?w = ''/repo''"
    by (simp_all add: demo_world_def)
  have q: "run ?w [] (Shell ''git rev-parse --show-toplevel'') (Some ''/repo'') True
      = Inr (Some ''/repo'')"
    by (simp add: demo_world_def demo_run_def toplevel_cmd_def)
  have cmds: "\<forall>tr cmd cwd. \<exists>out. run ?w tr cmd cwd False = Inr out"
    by (simp add: demo_world_def demo_run_def)
  have "\<not> only_modified minimal
        \<and> (truthy (url minimal) \<or> \<not> truthy (path minimal) \<or> isdir ?w [] (the (path minimal)))
        \<and> (\<not> truthy (url minimal) \<longrightarrow>
             (if truthy (path minimal) then the (path minimal) else tree_root ?w) \<noteq> []
             \<and> (run ?w [] (Shell ''git rev-parse --show-toplevel'')
                    (Some (if truthy (path minimal) then the (path minimal) else tree_root ?w)) True
                  = Inl RunError
                \<or> (\<exists>out. run ?w [] (Shell ''git rev-parse --show-toplevel'')
                       (Some (if truthy (path minimal) then the (path minimal) else tree_root ?w)) True
                     = Inr (Some out))))
        \<and> (\<forall>tr cmd cwd. \<exists>out. run ?w tr cmd cwd False = Inr out)"
    using off np root q cmds by (simp add: tr)
  then have empty: "fst (go ?w minimal []) = Inr []"
    by (rule dry_run_selects_nothing
          [OF h, THEN conjunct2, THEN conjunct2, THEN conjunct2, THEN conjunct2, THEN mp])
  have run1: "go ?w minimal [] =
      (Inr [], [Run (Shell ''git rev-parse --show-toplevel'') (Some ''/repo'') True])"
    by code_simp
  have run2: "go ?w (minimal\<lparr>url := Some ''https://github.com/psss/tmt''\<rparr>) [] =
       (Inr [],
        [Run (Argv [''git'', ''clone'', ''https://github.com/psss/tmt'', ''/run/tests'']) None False,
         Run (Argv [''git'', ''checkout'', ''-f'', ''master'']) (Some ''/run/tests'') False])"
    by code_simp
  from h off nu np root q cmds empty run1 run2 show ?thesis
    by (intro conjI)
qed

text \<open>
  C8 as stated fails for a configuration whose \<^verbatim>\<open>path\<close> is not a directory: the
  check of lines 137--139 is made in dry mode too, and \<^verbatim>\<open>go\<close> raises instead of
  returning the empty list.
\<close>

theorem dry_run_counterexample:
  "dry (demo_world True (Inr (Some ''/repo'')))
   \<and> go (demo_world True (Inr (Some ''/repo''))) (minimal\<lparr>path := Some ''/nonexistent''\<rparr>) [] =
       (Inl (DiscoverError
               (''Provided path '' @ quoted ''/nonexistent'' @ '' is not a directory.'')),
        [])"
  by code_simp

text \<open>
  The step of lines 185--191 in terms of the two commands it builds.
\<close>

lemma fetch_reference_steps:
  assumes "truthy (reference_url cfg)" and "prepare w cfg [] = (Inr p, tr)"
  shows "(\<exists>rest.
            snd (go w cfg []) =
              tr @ Run (remote_add_cmd (the (reference_url cfg))) (Some (testdir w)) False # rest
          \<and> (\<forall>out. run w tr (remote_add_cmd (the (reference_url cfg))) (Some (testdir w)) False
                      = Inr out \<longrightarrow>
                (\<exists>rest'. rest = Run fetch_cmd (Some (testdir w)) False # rest')))
       \<and> fetch_reference w (cfg\<lparr>only_modified := b\<rparr>) = fetch_reference w cfg"
proof
  let ?add = "Run (remote_add_cmd (the (reference_url cfg))) (Some (testdir w)) False"
  let ?fetch = "Run fetch_cmd (Some (testdir w)) False"
  let ?rest = "\<lambda>_::unit. and_then (add_modified w cfg (get_names cfg test)) (\<lambda>ns.
                 select_tests w p (get_names cfg filter_by) ns)"
  have go: "go w cfg [] = and_then (fetch_reference w cfg) ?rest tr"
    by (rule go_after_prepare [OF assms(2)])
  have grows: "adds (\<lambda>e. True) (?rest x)" for x
    by (intro adds_and_then adds_add_modified adds_select_tests) simp
  show "\<exists>rest. snd (go w cfg []) = tr @ ?add # rest
          \<and> (\<forall>out. run w tr (remote_add_cmd (the (reference_url cfg))) (Some (testdir w)) False
                      = Inr out \<longrightarrow> (\<exists>rest'. rest = ?fetch # rest'))"
  proof (cases "run w tr (remote_add_cmd (the (reference_url cfg))) (Some (testdir w)) False")
    case (Inl e)
    with assms(1) have "fetch_reference w cfg tr = (Inl e, tr @ [?add])"
      by (simp add: fetch_reference_def Let_def get_reference_url and_then_def do_run_def)
    then have "go w cfg [] = (Inl e, tr @ [?add])"
      unfolding go by (rule and_then_Inl)
    with Inl show ?thesis
      by simp
  next
    case (Inr out)
    have "\<exists>r. fetch_reference w cfg tr = (r, tr @ [?add, ?fetch])"
      using assms(1) Inr
      by (cases "run w (tr @ [?add]) fetch_cmd (Some (testdir w)) False")
         (simp_all add: fetch_reference_def Let_def get_reference_url and_then_def do_run_def
            ret_def)
    then obtain r where fr: "fetch_reference w cfg tr = (r, tr @ [?add, ?fetch])"
      by blast
    have "\<exists>evs. snd (go w cfg []) = (tr @ [?add, ?fetch]) @ evs"
    proof (cases r)
      case (Inl e)
      with fr have "go w cfg [] = (Inl e, tr @ [?add, ?fetch])"
        unfolding go by (simp add: and_then_def)
      then show ?thesis
        by simp
    next
      case (Inr u)
      with fr have g: "go w cfg [] = ?rest u (tr @ [?add, ?fetch])"
        unfolding go by (simp add: and_then_def)
      from addsD [OF grows surjective_pairing]
      show ?thesis
        unfolding g by blast
    qed
    then show ?thesis
      by auto
  qed
next
  show "fetch_reference w (cfg\<lparr>only_modified := b\<rparr>) = fetch_reference w cfg"
    by (simp add: fetch_reference_def Let_def get_reference_url)
qed

text \<open>
  C10.  Outside dry mode, once the preparation (lines 126--174) has succeeded, a
  configuration with \<^verbatim>\<open>reference_url\<close> makes \<^verbatim>\<open>go\<close> run
  \<^verbatim>\<open>git remote add reference <reference_url>\<close> in the test directory next, and, if
  that command does not raise, \<^verbatim>\<open>git fetch reference\<close> in the test directory right
  after.  This holds whatever \<^verbatim>\<open>only_modified\<close> is: the step does not read it.  (In
  dry mode the same two calls are made, but the command wrapper decides whether
  anything runs.)
\<close>

theorem reference_is_fetched:
  assumes "truthy (reference_url cfg)" and "prepare w cfg [] = (Inr p, tr)" and "\<not> dry w"
  shows "(\<exists>rest.
            snd (go w cfg []) =
              tr @ Run (Argv [''git'', ''remote'', ''add'', ''reference'', the (reference_url cfg)])
                     (Some (path_join (workdir w) ''tests'')) False # rest
          \<and> (\<forall>out. run w tr (Argv [''git'', ''remote'', ''add'', ''reference'',
                                    the (reference_url cfg)])
                        (Some (path_join (workdir w) ''tests'')) False
                      = Inr out \<longrightarrow>
                (\<exists>rest'. rest = Run (Argv [''git'', ''fetch'', ''reference''])
                                   (Some (path_join (workdir w) ''tests'')) False # rest')))
       \<and> fetch_reference w (cfg\<lparr>only_modified := b\<rparr>) = fetch_reference w cfg"
  by (rule fetch_reference_steps
        [OF assms(1,2), unfolded remote_add_cmd_def fetch_cmd_def testdir_def])

theorem reference_is_fetched_witness:
  "truthy (reference_url (minimal\<lparr>reference_url := Some ''https://example.org/r.git''\<rparr>))
   \<and> \<not> only_modified (minimal\<lparr>reference_url := Some ''https://example.org/r.git''\<rparr>)
   \<and> \<not> dry (demo_world False (Inr (Some ''/repo'')))
   \<and> prepare (demo_world False (Inr (Some ''/repo'')))
        (minimal\<lparr>reference_url := Some ''https://example.org/r.git''\<rparr>) [] =
       (Inr [],
        [Run (Shell ''git rev-parse --show-toplevel'') (Some ''/repo'') True,
         Copytree ''/repo'' ''/run/tests''])
   \<and> (\<exists>rest. snd (go (demo_world False (Inr (Some ''/repo'')))
        (minimal\<lparr>reference_url := Some ''https://example.org/r.git''\<rparr>) []) =
       [Run (Shell ''git rev-parse --show-toplevel'') (Some ''/repo'') True,
        Copytree ''/repo'' ''/run/tests'']
       @ Run (Argv [''git'', ''remote'', ''add'', ''reference'',
                    the (reference_url
                           (minimal\<lparr>reference_url := Some ''https://example.org/r.git''\<rparr>))])
           (Some (path_join (workdir (demo_world False (Inr (Some ''/repo'')))) ''tests''))
           False # rest)
   \<and> snd (go (demo_world False (Inr (Some ''/repo'')))
        (minimal\<lparr>reference_url := Some ''https://example.org/r.git''\<rparr>) []) =
       [Run (Shell ''git rev-parse --show-toplevel'') (Some ''/repo'') True,
        Copytree ''/repo'' ''/run/tests'',
        Run (Argv [''git'', ''remote'', ''add'', ''reference'', ''https://example.org/r.git''])
          (Some ''/run/tests'') False,
        Run (Argv [''git'', ''fetch'', ''reference'']) (Some ''/run/tests'') False,
        TreeTests ''/run/tests/'' [] [],
        Dependencies [''library(x/y)''] []]"
proof -
  let ?cfg = "minimal\<lparr>reference_url := Some ''https://example.org/r.git''\<rparr>"
  let ?w = "demo_world False (Inr (Some ''/repo''))"
  have h1: "truthy (reference_url ?cfg)"
    by (simp add: truthy_def)
  have h2: "prepare ?w ?cfg [] =
      (Inr [],
       [Run (Shell ''git rev-parse --show-toplevel'') (Some ''/repo'') True,
        Copytree ''/repo'' ''/run/tests''])"
    by code_simp
  have h3: "\<not> only_modified ?cfg"
    by (simp add: minimal_def)
  have h4: "\<not> dry ?w"
    by (simp add: demo_world_def)
  have tr: "snd (go ?w ?cfg []) =
       [Run (Shell ''git rev-parse --show-toplevel'') (Some ''/repo'') True,
        Copytree ''/repo'' ''/run/tests'',
        Run (Argv [''git'', ''remote'', ''add'', ''reference'', ''https://example.org/r.git''])
          (Some ''/run/tests'') False,
        Run (Argv [''git'', ''fetch'', ''reference'']) (Some ''/run/tests'') False,
        TreeTests ''/run/tests/'' [] [],
        Dependencies [''library(x/y)''] []]"
    by code_simp
  have ex: "\<exists>rest. snd (go ?w ?cfg []) =
      [Run (Shell ''git rev-parse --show-toplevel'') (Some ''/repo'') True,
       Copytree ''/repo'' ''/run/tests'']
      @ Run (Argv [''git'', ''remote'', ''add'', ''reference'', the (reference_url ?cfg)])
          (Some (path_join (workdir ?w) ''tests'')) False # rest"
    using reference_is_fetched [OF h1 h2 h4, THEN conjunct1] by (elim exE conjE) (rule exI)
  from h1 h3 h4 h2 ex tr show ?thesis
    by (intro conjI)
qed

end
